theory Spec2Isabelle
  imports Main "HOL-Library.AList"
begin

section \<open>Strings and numbers of the host language\<close>

text \<open>
  The source is TypeScript. A string is modelled as a \<open>string\<close> (a list of characters), the
  value \<open>undefined\<close> of an optional string as \<open>None\<close>. The three string operations the
  source uses are written out: \<open>split\<close> with a one-character separator, \<open>startsWith\<close>
  and \<open>endsWith\<close> with a one-character argument, and \<open>replace\<close> of the first occurrence
  of a character by the empty string.
\<close>

definition DELIMITER :: char where
  "DELIMITER = CHR ''+''"

definition MASK :: char where
  "MASK = CHR ''*''"

fun str_split :: "char \<Rightarrow> string \<Rightarrow> string list" where
  "str_split d [] = [[]]"
| "str_split d (c # cs) =
     (if c = d then [] # str_split d cs
      else (c # hd (str_split d cs)) # tl (str_split d cs))"

definition startsWith :: "string \<Rightarrow> char \<Rightarrow> bool" where
  "startsWith s c = (case s of [] \<Rightarrow> False | x # _ \<Rightarrow> x = c)"

definition endsWith :: "string \<Rightarrow> char \<Rightarrow> bool" where
  "endsWith s c = (case rev s of [] \<Rightarrow> False | x # _ \<Rightarrow> x = c)"

fun erase_first :: "char \<Rightarrow> string \<Rightarrow> string" where
  "erase_first d [] = []"
| "erase_first d (c # cs) = (if c = d then cs else c # erase_first d cs)"

text \<open>
  A value is truthy unless it is \<open>undefined\<close>, the empty string, or the number zero.
\<close>

definition truthy_str :: "string option \<Rightarrow> bool" where
  "truthy_str s = (case s of None \<Rightarrow> False | Some x \<Rightarrow> x \<noteq> [])"

definition truthy_num :: "int option \<Rightarrow> bool" where
  "truthy_num n = (case n of None \<Rightarrow> False | Some x \<Rightarrow> x \<noteq> 0)"

text \<open>The conversion of an optional string inside a template literal.\<close>

definition template :: "string option \<Rightarrow> string" where
  "template s = (case s of None \<Rightarrow> ''undefined'' | Some x \<Rightarrow> x)"

text \<open>
  Times are integers (milliseconds, or seconds for the expiration attribute): the numbers of
  the host language are floating-point numbers, which are these integers, with exact sums,
  as long as they stay within the safe-integer range (below \<open>2 ^ 53\<close> in absolute value).
  \<open>Math.round\<close> rounds to the nearest integer, a half towards plus infinity, so on an integer
  number of milliseconds \<open>msToS\<close> is the floor of \<open>(ms + 500) / 1000\<close>.
\<close>

definition msToS :: "int \<Rightarrow> int" where
  "msToS ms = (ms + 500) div 1000"

text \<open>
  \<open>toString\<close> of an integer is its decimal representation; \<open>parseInt(s, 10)\<close> skips
  leading white space, reads an optional sign and the longest prefix of decimal digits, and is
  \<open>NaN\<close> (here \<open>None\<close>) when there is no digit.
\<close>

definition digit_char :: "nat \<Rightarrow> char" where
  "digit_char d = ''0123456789'' ! d"

definition is_digit :: "char \<Rightarrow> bool" where
  "is_digit c = (c \<in> set ''0123456789'')"

definition digit_val :: "char \<Rightarrow> nat" where
  "digit_val c = length (takeWhile (\<lambda>x. x \<noteq> c) ''0123456789'')"

fun digits :: "nat \<Rightarrow> string" where
  "digits n = (if n < 10 then [digit_char n] else digits (n div 10) @ [digit_char (n mod 10)])"

declare digits.simps [simp del]

definition toString :: "int \<Rightarrow> string" where
  "toString i = (if i < 0 then CHR ''-'' # digits (nat (- i)) else digits (nat i))"

definition dec_val :: "string \<Rightarrow> nat" where
  "dec_val ds = foldl (\<lambda>acc c. 10 * acc + digit_val c) 0 ds"

definition is_space :: "char \<Rightarrow> bool" where
  "is_space c = (c \<in> set [CHR '' '', CHR 0x09, CHR 0x0A, CHR 0x0B, CHR 0x0C, CHR 0x0D])"

definition parseInt :: "string \<Rightarrow> int option" where
  "parseInt s =
     (let s1 = dropWhile is_space s;
          neg = (case s1 of [] \<Rightarrow> False | c # _ \<Rightarrow> c = CHR ''-'');
          s2 = (case s1 of [] \<Rightarrow> [] | c # r \<Rightarrow> if c = CHR ''-'' \<or> c = CHR ''+'' then r else s1);
          ds = takeWhile is_digit s2
      in if ds = [] then None
         else Some (if neg then - int (dec_val ds) else int (dec_val ds)))"

section \<open>Data model\<close>

text \<open>
  Errors are values. \<open>Error msg\<close> is \<open>new Error(msg)\<close> (thrown by the source itself, by the
  marshalling library or by the provider), \<open>TypeError\<close> is what reading a member of
  \<open>undefined\<close> or \<open>null\<close> raises, and \<open>UnprocessedDataException\<close> is the sentinel class of
  the backoff helper.
\<close>

datatype error = Error string | TypeError | UnprocessedDataException

definition unsupported_key :: error where
  "unsupported_key = Error ''Unsupported cache key''"

definition bad_pattern :: error where
  "bad_pattern = Error ''Bad key pattern provided. Possible value \"bar+fo*\"''"

text \<open>
  An attribute value of the provider is a typed scalar: \<open>{S: s}\<close>, \<open>{N: s}\<close>, \<open>{BOOL: b}\<close> or
  \<open>{NULL: true}\<close> (the compound types, lists, maps, sets and binary values, are left out:
  the store reads the members \<open>S\<close> and \<open>N\<close> only). The member \<open>S\<close> may hold \<open>undefined\<close>, since \<open>deserializeKey\<close> builds
  \<open>{S: sk}\<close> from a key that has no sort segment. A record of the store (an item, a store key)
  is an object from attribute names to attribute values: a property list, read with \<open>map_of\<close>
  and written with \<open>AList.update\<close> (which replaces a property in place or appends it, as an
  assignment to an object does).
\<close>

datatype attr = S "string option" | N string | BOOL bool | NULL

type_synonym item = "(string \<times> attr) list"

definition member_S :: "attr \<Rightarrow> string option" where
  "member_S a = (case a of S x \<Rightarrow> x | _ \<Rightarrow> None)"

definition member_N :: "attr \<Rightarrow> string option" where
  "member_N a = (case a of N x \<Rightarrow> Some x | _ \<Rightarrow> None)"

definition assign :: "('k \<times> 'v) list \<Rightarrow> ('k \<times> 'v) list \<Rightarrow> ('k \<times> 'v) list" where
  "assign target source = foldl (\<lambda>acc kv. AList.update (fst kv) (snd kv) acc) target source"

text \<open>
  A native value of the host language, as far as the store handles one: the payload of an
  entry, the fields the metadata function derives, and what \<open>unmarshall\<close> returns. A number is
  kept as its decimal string. An unmarshalled record is an object from names to native values.
\<close>

datatype jsval = Undefined | Null | Bool bool | Num string | Str string

type_synonym jsobj = "(string \<times> jsval) list"

text \<open>
  \<open>marshall\<close> and \<open>unmarshall\<close> belong to the provider's SDK (\<open>@aws-sdk/util-dynamodb\<close>), not
  to the repository. The model follows their documented conversion of scalars: a string
  becomes \<open>{S: s}\<close> and back, a number becomes \<open>{N: s}\<close> and back, \<open>null\<close> becomes
  \<open>{NULL: true}\<close>; a property that holds \<open>undefined\<close> makes \<open>marshall\<close> throw, and an
  attribute without a defined member makes \<open>unmarshall\<close> throw.
\<close>

definition convertToAttr :: "jsval \<Rightarrow> error + attr" where
  "convertToAttr v =
     (case v of
        Undefined \<Rightarrow> Inl (Error ''Pass options.removeUndefinedValues=true to remove undefined values from map/array/set.'')
      | Null \<Rightarrow> Inr NULL
      | Bool b \<Rightarrow> Inr (BOOL b)
      | Num s \<Rightarrow> Inr (N s)
      | Str s \<Rightarrow> Inr (S (Some s)))"

definition convertToNative :: "attr \<Rightarrow> error + jsval" where
  "convertToNative a =
     (case a of
        S None \<Rightarrow> Inl (Error ''No value defined'')
      | S (Some s) \<Rightarrow> Inr (Str s)
      | N s \<Rightarrow> Inr (Num s)
      | BOOL b \<Rightarrow> Inr (Bool b)
      | NULL \<Rightarrow> Inr Null)"

text \<open>Converting each property in turn; the first failure is the exception thrown.\<close>

fun convert_props :: "('a \<Rightarrow> error + 'b) \<Rightarrow> (string \<times> 'a) list \<Rightarrow> error + (string \<times> 'b) list" where
  "convert_props f [] = Inr []"
| "convert_props f (kv # kvs) =
     (case f (snd kv) of
        Inl e \<Rightarrow> Inl e
      | Inr b \<Rightarrow>
          (case convert_props f kvs of
             Inl e \<Rightarrow> Inl e
           | Inr r \<Rightarrow> Inr ((fst kv, b) # r)))"

definition marshall :: "jsobj \<Rightarrow> error + item" where
  "marshall obj = convert_props convertToAttr obj"

definition unmarshall :: "item \<Rightarrow> error + jsobj" where
  "unmarshall item = convert_props convertToNative item"

text \<open>
  Reading a property of an object gives \<open>undefined\<close> when the object has no such property.
  An object is modelled by its own properties: a name that \<open>Object.prototype\<close> defines as
  well (\<open>constructor\<close>, \<open>toString\<close> and the like), used as a key, an attribute name or a
  table name, is outside the model.
  Reading a member of a value: of \<open>undefined\<close> and \<open>null\<close> it raises a \<open>TypeError\<close>; a
  boolean, a number and a string have no member of the names the source reads (\<open>N\<close>).
\<close>

definition get_prop :: "jsobj \<Rightarrow> string \<Rightarrow> jsval" where
  "get_prop obj name = (case map_of obj name of None \<Rightarrow> Undefined | Some v \<Rightarrow> v)"

definition get_member :: "jsval \<Rightarrow> string \<Rightarrow> error + jsval" where
  "get_member v name =
     (case v of
        Undefined \<Rightarrow> Inl TypeError
      | Null \<Rightarrow> Inl TypeError
      | _ \<Rightarrow> Inr Undefined)"

text \<open>
  \<open>parseInt(v, 10)\<close> of a native value converts it to a string first: \<open>undefined\<close>,
  \<open>null\<close> and booleans give strings without a digit.
\<close>

definition parseInt_val :: "jsval \<Rightarrow> int option" where
  "parseInt_val v = (case v of Str s \<Rightarrow> parseInt s | Num s \<Rightarrow> parseInt s | _ \<Rightarrow> None)"

text \<open>
  The configuration: \<open>Config\<close> of \<open>types.ts\<close> without the client handle, which the model
  passes as a provider function (see below). \<open>ttl\<close> is the optional default of the cache
  configuration, \<open>meta\<close> the optional function deriving metadata fields from a payload.
\<close>

record key_names =
  pk :: string
  sk :: "string option"
  ex :: string

record config =
  cfg_table :: string
  cfg_keys :: key_names
  cfg_ttl :: "int option"
  cfg_meta :: "(jsval \<Rightarrow> jsobj) option"

section \<open>Key codec and expiration (utils.ts)\<close>

definition serializeKey :: "item \<Rightarrow> config \<Rightarrow> error + string option" where
  "serializeKey item cfg =
     (case map_of item (pk (cfg_keys cfg)) of
        None \<Rightarrow> Inl TypeError
      | Some a \<Rightarrow>
          (case map_of item (case sk (cfg_keys cfg) of None \<Rightarrow> [] | Some n \<Rightarrow> n) of
             None \<Rightarrow> Inl TypeError
           | Some b \<Rightarrow>
               Inr (if truthy_str (member_S b)
                    then Some (template (member_S a) @ [DELIMITER] @ template (member_S b))
                    else member_S a)))"

definition deserializeKey :: "string \<Rightarrow> config \<Rightarrow> error + item" where
  "deserializeKey key cfg =
     (if length key = 0 \<or> startsWith key DELIMITER then Inl unsupported_key
      else
        (let parts = str_split DELIMITER key;
             pkv = Some (hd parts);
             skv = (case tl parts of [] \<Rightarrow> None | x # _ \<Rightarrow> Some x);
             dbKey = [(pk (cfg_keys cfg), S pkv)]
         in Inr (case sk (cfg_keys cfg) of
                   None \<Rightarrow> dbKey
                 | Some n \<Rightarrow> if n \<noteq> [] then assign dbKey [(n, S skv)] else dbKey)))"

definition validateKeyPattern :: "string option \<Rightarrow> error + unit" where
  "validateKeyPattern pattern =
     (case pattern of
        None \<Rightarrow> Inr ()
      | Some p \<Rightarrow>
          if p = [] then Inr ()
          else if endsWith p MASK \<and> length (str_split MASK p) < 3
                  \<and> length (str_split DELIMITER p) = 2
          then Inr ()
          else Inl bad_pattern)"

definition eraseMask :: "string \<Rightarrow> string" where
  "eraseMask pattern = erase_first MASK pattern"

text \<open>
  \<open>isExpired\<close> reads the member \<open>N\<close> of the record's expiration property and parses it. Both
  callers (\<open>get\<close> and \<open>mget\<close> of \<open>store.ts\<close>) pass the record that \<open>unmarshall\<close> returned, so
  the record here is an object of native values, and these are the scalars above: the
  function is embedded as the store calls it, on the records that the store's builders
  write (whose expiration attribute is a number). A raw record of attribute values, which
  no caller passes, and a record whose expiration attribute is of a compound type are
  outside this definition. The comparison with a \<open>NaN\<close> is false.
\<close>

definition isExpired :: "jsobj \<Rightarrow> config \<Rightarrow> int \<Rightarrow> error + bool" where
  "isExpired record cfg now =
     (case get_member (get_prop record (ex (cfg_keys cfg))) ''N'' of
        Inl e \<Rightarrow> Inl e
      | Inr n \<Rightarrow>
          Inr (case parseInt_val n of
                 None \<Rightarrow> False
               | Some expiresAt \<Rightarrow> expiresAt * 1000 < now))"

section \<open>Requests and responses of the provider\<close>

text \<open>
  A request payload and a response are objects of optional properties, named as the source
  and the SDK name them (but for the property \<open>Item\<close> of a response, which is \<open>Item_out\<close>
  here, a request having an \<open>Item\<close> too). \<open>RequestItems\<close> maps a table name either to \<open>{Keys: [...]}\<close> (batch
  read) or to a list of put and delete requests (batch write). The options that a builder
  sets to the constant \<open>NONE\<close> are listed by name in \<open>NoneOptions\<close>.
\<close>

datatype write_request = PutRequest item | DeleteRequest item

datatype request_items = Keys "item list" | Requests "write_request list"

record input =
  TableName :: "string option"
  Key :: "item option"
  Item :: "item option"
  RequestItems :: "(string \<times> request_items) list option"
  ExpressionAttributeNames :: "(string \<times> string option) list option"
  ExpressionAttributeValues :: "(string \<times> attr option) list option"
  ProjectionExpression :: "string option"
  KeyConditionExpression :: "string option"
  UpdateExpression :: "string option"
  ExclusiveStartKey :: "item option"
  NoneOptions :: "string list"

definition empty_input :: input where
  "empty_input =
     \<lparr>TableName = None, Key = None, Item = None, RequestItems = None,
      ExpressionAttributeNames = None, ExpressionAttributeValues = None,
      ProjectionExpression = None, KeyConditionExpression = None, UpdateExpression = None,
      ExclusiveStartKey = None, NoneOptions = []\<rparr>"

datatype command =
    GetItemCommand input
  | PutItemCommand input
  | DeleteItemCommand input
  | BatchGetItemCommand input
  | BatchWriteItemCommand input
  | UpdateItemCommand input
  | ScanCommand input
  | QueryCommand input

record response =
  Item_out :: "item option"
  Responses :: "(string \<times> item list) list option"
  UnprocessedKeys :: "(string \<times> item list) list option"
  UnprocessedItems :: "(string \<times> write_request list) list option"
  Items :: "item list option"
  LastEvaluatedKey :: "item option"

definition empty_response :: response where
  "empty_response =
     \<lparr>Item_out = None, Responses = None, UnprocessedKeys = None, UnprocessedItems = None,
      Items = None, LastEvaluatedKey = None\<rparr>"

section \<open>Request builders (utils.ts)\<close>

text \<open>
  \<open>Array.map\<close> with a callback that may throw: the first exception ends the map.
\<close>

fun try_map :: "('a \<Rightarrow> error + 'b) \<Rightarrow> 'a list \<Rightarrow> error + 'b list" where
  "try_map f [] = Inr []"
| "try_map f (x # xs) =
     (case f x of
        Inl e \<Rightarrow> Inl e
      | Inr y \<Rightarrow> (case try_map f xs of Inl e \<Rightarrow> Inl e | Inr ys \<Rightarrow> Inr (y # ys)))"

text \<open>
  The expiration written by the builders: \<open>msToS(Date.now() + config.ttl).toString()\<close>. The
  builders take a configuration whose \<open>ttl\<close> the store has set; a missing one would give the
  string of a \<open>NaN\<close>.
\<close>

definition expiresAt_string :: "config \<Rightarrow> int \<Rightarrow> string" where
  "expiresAt_string cfg now =
     (case cfg_ttl cfg of None \<Rightarrow> ''NaN'' | Some t \<Rightarrow> toString (msToS (now + t)))"

definition buildGetInput :: "string \<Rightarrow> config \<Rightarrow> error + input" where
  "buildGetInput key cfg =
     (case deserializeKey key cfg of
        Inl e \<Rightarrow> Inl e
      | Inr k \<Rightarrow>
          Inr (empty_input\<lparr>Key := Some k, TableName := Some (cfg_table cfg),
                 NoneOptions := [''ReturnConsumedCapacity'']\<rparr>))"

definition build_Item :: "string \<Rightarrow> item \<Rightarrow> config \<Rightarrow> int \<Rightarrow> error + item" where
  "build_Item key data cfg now =
     (case deserializeKey key cfg of
        Inl e \<Rightarrow> Inl e
      | Inr k \<Rightarrow> Inr (assign (assign data k) [(ex (cfg_keys cfg), N (expiresAt_string cfg now))]))"

definition buildSetInput :: "string \<Rightarrow> item \<Rightarrow> config \<Rightarrow> int \<Rightarrow> error + input" where
  "buildSetInput key data cfg now =
     (case build_Item key data cfg now of
        Inl e \<Rightarrow> Inl e
      | Inr it \<Rightarrow>
          Inr (empty_input\<lparr>Item := Some it, TableName := Some (cfg_table cfg),
                 NoneOptions := [''ReturnValues'', ''ReturnConsumedCapacity'',
                                 ''ReturnItemCollectionMetrics'']\<rparr>))"

definition buildDelInput :: "string \<Rightarrow> config \<Rightarrow> error + input" where
  "buildDelInput key cfg =
     (case deserializeKey key cfg of
        Inl e \<Rightarrow> Inl e
      | Inr k \<Rightarrow> Inr (empty_input\<lparr>Key := Some k, TableName := Some (cfg_table cfg)\<rparr>))"

definition buildMGetInput :: "string list \<Rightarrow> config \<Rightarrow> error + input" where
  "buildMGetInput keys cfg =
     (case try_map (\<lambda>key. deserializeKey key cfg) keys of
        Inl e \<Rightarrow> Inl e
      | Inr ks \<Rightarrow> Inr (empty_input\<lparr>RequestItems := Some [(cfg_table cfg, Keys ks)]\<rparr>))"

definition buildMSetInput :: "(string \<times> item) list \<Rightarrow> config \<Rightarrow> int \<Rightarrow> error + input" where
  "buildMSetInput args cfg now =
     (case try_map (\<lambda>kd. case build_Item (fst kd) (snd kd) cfg now of
                           Inl e \<Rightarrow> Inl e
                         | Inr it \<Rightarrow> Inr (PutRequest it)) args of
        Inl e \<Rightarrow> Inl e
      | Inr items \<Rightarrow>
          Inr (empty_input\<lparr>RequestItems := Some [(cfg_table cfg, Requests items)],
                 NoneOptions := [''ReturnValue'', ''ReturnConsumedCapacity'',
                                 ''ReturnItemCollectionMetrics'']\<rparr>))"

definition buildMDelInput :: "string list \<Rightarrow> config \<Rightarrow> error + input" where
  "buildMDelInput keys cfg =
     (case try_map (\<lambda>key. case deserializeKey key cfg of
                            Inl e \<Rightarrow> Inl e
                          | Inr k \<Rightarrow> Inr (DeleteRequest k)) keys of
        Inl e \<Rightarrow> Inl e
      | Inr rs \<Rightarrow> Inr (empty_input\<lparr>RequestItems := Some [(cfg_table cfg, Requests rs)]\<rparr>))"

definition projection :: "config \<Rightarrow> string" where
  "projection cfg = (if truthy_str (sk (cfg_keys cfg)) then ''#pk, #sk'' else ''#pk'')"

definition with_cursor :: "item option \<Rightarrow> input \<Rightarrow> input" where
  "with_cursor cursor inp =
     (case cursor of None \<Rightarrow> inp | Some c \<Rightarrow> inp\<lparr>ExclusiveStartKey := Some c\<rparr>)"

definition buildScanKeysInput :: "item option \<Rightarrow> config \<Rightarrow> input" where
  "buildScanKeysInput cursor cfg =
     with_cursor cursor
       (empty_input\<lparr>TableName := Some (cfg_table cfg),
          ExpressionAttributeNames :=
            Some [(''#pk'', Some (pk (cfg_keys cfg))), (''#sk'', sk (cfg_keys cfg))],
          ProjectionExpression := Some (projection cfg)\<rparr>)"

text \<open>
  \<open>key[config.keys.sk]\<close> with an absent sort name reads the property named \<open>undefined\<close>.
\<close>

definition buildQueryKeysInput :: "string \<Rightarrow> item option \<Rightarrow> config \<Rightarrow> error + input" where
  "buildQueryKeysInput pattern cursor cfg =
     (case deserializeKey (eraseMask pattern) cfg of
        Inl e \<Rightarrow> Inl e
      | Inr key \<Rightarrow>
          Inr (with_cursor cursor
                 (empty_input\<lparr>TableName := Some (cfg_table cfg),
                    ProjectionExpression := Some (projection cfg),
                    ExpressionAttributeValues :=
                      Some [('':pk'', map_of key (pk (cfg_keys cfg))),
                            ('':sk'', map_of key (template (sk (cfg_keys cfg))))],
                    KeyConditionExpression := Some ''#pk = :pk and begins_with(#sk, :sk)'',
                    ExpressionAttributeNames :=
                      Some [(''#pk'', Some (pk (cfg_keys cfg))), (''#sk'', sk (cfg_keys cfg))]\<rparr>)))"

definition buildTTLInput :: "string \<Rightarrow> config \<Rightarrow> error + input" where
  "buildTTLInput key cfg =
     (case deserializeKey key cfg of
        Inl e \<Rightarrow> Inl e
      | Inr k \<Rightarrow>
          Inr (empty_input\<lparr>Key := Some k, TableName := Some (cfg_table cfg),
                 ExpressionAttributeNames := Some [(''#ex'', Some (ex (cfg_keys cfg)))],
                 ProjectionExpression := Some ''#ex'',
                 NoneOptions := [''ReturnConsumedCapacity'']\<rparr>))"

definition buildTouchInput :: "string \<Rightarrow> config \<Rightarrow> int \<Rightarrow> error + input" where
  "buildTouchInput key cfg now =
     (case deserializeKey key cfg of
        Inl e \<Rightarrow> Inl e
      | Inr k \<Rightarrow>
          Inr (empty_input\<lparr>Key := Some k,
                 UpdateExpression := Some ''set #ex = :ex'',
                 ExpressionAttributeNames := Some [(''#ex'', Some (ex (cfg_keys cfg)))],
                 ExpressionAttributeValues :=
                   Some [('':ex'', Some (N (expiresAt_string cfg now)))],
                 TableName := Some (cfg_table cfg),
                 NoneOptions := [''ReturnValues'', ''ReturnConsumedCapacity'',
                                 ''ReturnItemCollectionMetrics'']\<rparr>))"

section \<open>The store (store.ts)\<close>

text \<open>
  The client handle is a provider: a function from a command and the provider's state to a
  response or an exception, and the next state. The world a store operation runs in is the
  provider's state together with the commands sent so far, in the order \<open>client.send\<close> was
  called. \<open>Date.now()\<close> is the argument \<open>now\<close> of an operation.
\<close>

type_synonym 'st provider = "command \<Rightarrow> 'st \<Rightarrow> (error + response) \<times> 'st"

type_synonym 'st world = "'st \<times> command list"

definition send :: "'st provider \<Rightarrow> command \<Rightarrow> 'st world \<Rightarrow> (error + response) \<times> 'st world" where
  "send P c w = (case P c (fst w) of (r, st) \<Rightarrow> (r, (st, snd w @ [c])))"

definition defaultTtl :: int where
  "defaultTtl = 60000"

text \<open>\<open>a || b\<close> on optional numbers.\<close>

definition js_or :: "int option \<Rightarrow> int option \<Rightarrow> int option" where
  "js_or a b = (if truthy_num a then a else b)"

text \<open>\<open>{...this.config, ttl: ttl || this.config.ttl || DynamoDBStore.defaultTtl}\<close>\<close>

definition with_ttl :: "config \<Rightarrow> int option \<Rightarrow> config" where
  "with_ttl cfg t = cfg\<lparr>cfg_ttl := js_or (js_or t (cfg_ttl cfg)) (Some defaultTtl)\<rparr>"

text \<open>\<open>marshall({data, ...meta})\<close> with \<open>meta = this.config.meta && this.config.meta(data)\<close>\<close>

definition marshall_data :: "config \<Rightarrow> jsval \<Rightarrow> error + item" where
  "marshall_data cfg data =
     marshall (assign [(''data'', data)] (case cfg_meta cfg of None \<Rightarrow> [] | Some f \<Rightarrow> f data))"

text \<open>
  What \<open>get\<close> and \<open>mget\<close> return for a record read from the store: \<open>undefined\<close> when
  \<open>isExpired\<close> says so, the property \<open>data\<close> of the unmarshalled record otherwise.
\<close>

definition read_item :: "config \<Rightarrow> int \<Rightarrow> item \<Rightarrow> error + jsval" where
  "read_item cfg now raw =
     (case unmarshall raw of
        Inl e \<Rightarrow> Inl e
      | Inr item \<Rightarrow>
          (case isExpired item cfg now of
             Inl e \<Rightarrow> Inl e
           | Inr expired \<Rightarrow> Inr (if expired then Undefined else get_prop item ''data'')))"

definition get :: "config \<Rightarrow> 'st provider \<Rightarrow> int \<Rightarrow> string \<Rightarrow> 'st world \<Rightarrow> (error + jsval) \<times> 'st world" where
  "get cfg P now key w =
     (case buildGetInput key cfg of
        Inl e \<Rightarrow> (Inl e, w)
      | Inr inp \<Rightarrow>
          (case send P (GetItemCommand inp) w of
             (Inl e, w') \<Rightarrow> (Inl e, w')
           | (Inr response, w') \<Rightarrow>
               (case Item_out response of
                  None \<Rightarrow> (Inr Undefined, w')
                | Some raw \<Rightarrow> (read_item cfg now raw, w'))))"

definition set_entry ::
  "config \<Rightarrow> 'st provider \<Rightarrow> int \<Rightarrow> string \<Rightarrow> jsval \<Rightarrow> int option \<Rightarrow> 'st world \<Rightarrow> (error + unit) \<times> 'st world" where
  "set_entry cfg P now key data t w =
     (case marshall_data cfg data of
        Inl e \<Rightarrow> (Inl e, w)
      | Inr m \<Rightarrow>
          (case buildSetInput key m (with_ttl cfg t) now of
             Inl e \<Rightarrow> (Inl e, w)
           | Inr inp \<Rightarrow>
               (case send P (PutItemCommand inp) w of
                  (Inl e, w') \<Rightarrow> (Inl e, w')
                | (Inr response, w') \<Rightarrow> (Inr (), w'))))"

definition del :: "config \<Rightarrow> 'st provider \<Rightarrow> string \<Rightarrow> 'st world \<Rightarrow> (error + unit) \<times> 'st world" where
  "del cfg P key w =
     (case buildDelInput key cfg of
        Inl e \<Rightarrow> (Inl e, w)
      | Inr inp \<Rightarrow>
          (case send P (DeleteItemCommand inp) w of
             (Inl e, w') \<Rightarrow> (Inl e, w')
           | (Inr response, w') \<Rightarrow> (Inr (), w')))"

subsection \<open>Batches\<close>

text \<open>\<open>chunk\<close> of \<open>lodash.chunk\<close>: groups of \<open>n\<close> elements, the last one with the rest.\<close>

function chunk :: "'a list \<Rightarrow> nat \<Rightarrow> 'a list list" where
  "chunk xs n = (if n = 0 \<or> xs = [] then [] else take n xs # chunk (drop n xs) n)"
  by pat_completeness auto
termination
  by (relation "measure (\<lambda>(xs, n). length xs)") auto

declare chunk.simps [simp del]

text \<open>
  \<open>Promise.all\<close> fulfils with the values in index order when every promise fulfils, and
  rejects with the reason of the promise that rejects first in time. The program does not
  determine the order in which the chunks of a batch settle: \<open>ord\<close> lists the indices of the
  promises in the order they settle (an index it leaves out settles after those it lists,
  in index order).
\<close>

fun lefts :: "('a + 'b) list \<Rightarrow> 'a list" where
  "lefts [] = []"
| "lefts (Inl e # rs) = e # lefts rs"
| "lefts (Inr x # rs) = lefts rs"

fun rights :: "('a + 'b) list \<Rightarrow> 'b list" where
  "rights [] = []"
| "rights (Inl e # rs) = rights rs"
| "rights (Inr x # rs) = x # rights rs"

definition promise_all :: "nat list \<Rightarrow> (error + 'a) list \<Rightarrow> error + 'a list" where
  "promise_all ord rs =
     (case lefts (map (\<lambda>i. rs ! i) (filter (\<lambda>i. i < length rs) ord) @ rs) of
        [] \<Rightarrow> Inr (rights rs)
      | e # _ \<Rightarrow> Inl e)"

text \<open>
  The callback of \<open>chunks.map\<close> in \<open>mget\<close> and \<open>mset\<close> is an \<open>async\<close> function: it runs up to
  its \<open>await\<close> of \<open>client.send\<close> when \<open>map\<close> calls it, so the chunks send in order, and an
  exception in it rejects the chunk's promise while \<open>map\<close> goes on to the next chunk.
\<close>

fun map_chunks ::
  "('c \<Rightarrow> 'st world \<Rightarrow> (error + 'r) \<times> 'st world) \<Rightarrow> 'c list \<Rightarrow> 'st world \<Rightarrow> (error + 'r) list \<times> 'st world" where
  "map_chunks f [] w = ([], w)"
| "map_chunks f (c # cs) w =
     (case f c w of
        (r, w') \<Rightarrow> (case map_chunks f cs w' of (rs, w'') \<Rightarrow> (r # rs, w'')))"

text \<open>
  The \<open>reduce\<close> of \<open>mget\<close>: the lookup object from the logical key of each returned record to
  the record; a later record with the same key replaces an earlier one. The lookup object
  is modelled by its own properties, so a requested key that names a member of
  \<open>Object.prototype\<close> is outside the model.
\<close>

fun index_items :: "config \<Rightarrow> item list \<Rightarrow> (string \<times> item) list \<Rightarrow> error + (string \<times> item) list" where
  "index_items cfg [] acc = Inr acc"
| "index_items cfg (item # items) acc =
     (case serializeKey item cfg of
        Inl e \<Rightarrow> Inl e
      | Inr key \<Rightarrow> index_items cfg items (AList.update (template key) item acc))"

definition mget_collect :: "config \<Rightarrow> int \<Rightarrow> string list \<Rightarrow> response \<Rightarrow> error + jsval list" where
  "mget_collect cfg now keys response =
     (let items = (case Responses response of
                     None \<Rightarrow> []
                   | Some rs \<Rightarrow> (case map_of rs (cfg_table cfg) of None \<Rightarrow> [] | Some its \<Rightarrow> its))
      in case index_items cfg items [] of
           Inl e \<Rightarrow> Inl e
         | Inr m \<Rightarrow>
             try_map (\<lambda>key. case map_of m key of
                               None \<Rightarrow> Inr Undefined
                             | Some raw \<Rightarrow> read_item cfg now raw) keys)"

definition mget_chunk ::
  "config \<Rightarrow> 'st provider \<Rightarrow> int \<Rightarrow> string list \<Rightarrow> 'st world \<Rightarrow> (error + jsval list) \<times> 'st world" where
  "mget_chunk cfg P now keys w =
     (case buildMGetInput keys cfg of
        Inl e \<Rightarrow> (Inl e, w)
      | Inr inp \<Rightarrow>
          (case send P (BatchGetItemCommand inp) w of
             (Inl e, w') \<Rightarrow> (Inl e, w')
           | (Inr response, w') \<Rightarrow> (mget_collect cfg now keys response, w')))"

definition mget ::
  "config \<Rightarrow> 'st provider \<Rightarrow> int \<Rightarrow> nat list \<Rightarrow> string list \<Rightarrow> 'st world \<Rightarrow> (error + jsval list) \<times> 'st world" where
  "mget cfg P now ord args w =
     (case map_chunks (mget_chunk cfg P now) (chunk args 100) w of
        (rs, w') \<Rightarrow>
          (case promise_all ord rs of
             Inl e \<Rightarrow> (Inl e, w')
           | Inr items \<Rightarrow> (Inr (concat items), w')))"

definition mset_chunk ::
  "config \<Rightarrow> 'st provider \<Rightarrow> int \<Rightarrow> int option \<Rightarrow> (string \<times> jsval) list \<Rightarrow> 'st world \<Rightarrow> (error + response) \<times> 'st world" where
  "mset_chunk cfg P now t values w =
     (case try_map (\<lambda>kd. case marshall_data cfg (snd kd) of
                           Inl e \<Rightarrow> Inl e
                         | Inr m \<Rightarrow> Inr (fst kd, m)) values of
        Inl e \<Rightarrow> (Inl e, w)
      | Inr ms \<Rightarrow>
          (case buildMSetInput ms (with_ttl cfg t) now of
             Inl e \<Rightarrow> (Inl e, w)
           | Inr inp \<Rightarrow> send P (BatchWriteItemCommand inp) w))"

definition mset ::
  "config \<Rightarrow> 'st provider \<Rightarrow> int \<Rightarrow> nat list \<Rightarrow> (string \<times> jsval) list \<Rightarrow> int option \<Rightarrow> 'st world \<Rightarrow> (error + unit) \<times> 'st world" where
  "mset cfg P now ord args t w =
     (case map_chunks (mset_chunk cfg P now t) (chunk args 25) w of
        (rs, w') \<Rightarrow>
          (case promise_all ord rs of
             Inl e \<Rightarrow> (Inl e, w')
           | Inr responses \<Rightarrow> (Inr (), w')))"

text \<open>
  The callback of \<open>chunks.map\<close> in \<open>mdel\<close> is not \<open>async\<close>: an exception of
  \<open>buildMDelInput\<close> leaves \<open>map\<close> at once, so the chunks after it are not sent and \<open>mdel\<close>
  rejects with that exception.
\<close>

fun mdel_chunks ::
  "config \<Rightarrow> 'st provider \<Rightarrow> string list list \<Rightarrow> 'st world \<Rightarrow> (error + (error + response) list) \<times> 'st world" where
  "mdel_chunks cfg P [] w = (Inr [], w)"
| "mdel_chunks cfg P (keys # rest) w =
     (case buildMDelInput keys cfg of
        Inl e \<Rightarrow> (Inl e, w)
      | Inr inp \<Rightarrow>
          (case send P (BatchWriteItemCommand inp) w of
             (r, w') \<Rightarrow>
               (case mdel_chunks cfg P rest w' of
                  (Inl e, w'') \<Rightarrow> (Inl e, w'')
                | (Inr rs, w'') \<Rightarrow> (Inr (r # rs), w''))))"

definition mdel ::
  "config \<Rightarrow> 'st provider \<Rightarrow> nat list \<Rightarrow> string list \<Rightarrow> 'st world \<Rightarrow> (error + unit) \<times> 'st world" where
  "mdel cfg P ord args w =
     (case mdel_chunks cfg P (chunk args 25) w of
        (Inl e, w') \<Rightarrow> (Inl e, w')
      | (Inr rs, w') \<Rightarrow>
          (case promise_all ord rs of
             Inl e \<Rightarrow> (Inl e, w')
           | Inr responses \<Rightarrow> (Inr (), w')))"

subsection \<open>Enumeration, remaining lifetime, touch\<close>

definition keys_command :: "string option \<Rightarrow> item option \<Rightarrow> config \<Rightarrow> error + command" where
  "keys_command pattern cursor cfg =
     (case pattern of
        None \<Rightarrow> Inr (ScanCommand (buildScanKeysInput cursor cfg))
      | Some p \<Rightarrow>
          if p = [] then Inr (ScanCommand (buildScanKeysInput cursor cfg))
          else (case buildQueryKeysInput p cursor cfg of
                  Inl e \<Rightarrow> Inl e
                | Inr inp \<Rightarrow> Inr (QueryCommand inp)))"

text \<open>
  The \<open>do ... while (!!cursor)\<close> loop of \<open>keys\<close> runs as long as the provider returns a
  cursor, which may be for ever: the model takes fuel, one unit for each round, and returns
  \<open>None\<close> when the fuel runs out before the loop ends.
\<close>

fun keys_loop ::
  "nat \<Rightarrow> config \<Rightarrow> 'st provider \<Rightarrow> string option \<Rightarrow> item option \<Rightarrow> string option list \<Rightarrow> 'st world
     \<Rightarrow> ((error + string option list) \<times> 'st world) option" where
  "keys_loop 0 cfg P pattern cursor acc w = None"
| "keys_loop (Suc fuel) cfg P pattern cursor acc w =
     (case keys_command pattern cursor cfg of
        Inl e \<Rightarrow> Some (Inl e, w)
      | Inr command \<Rightarrow>
          (case send P command w of
             (Inl e, w') \<Rightarrow> Some (Inl e, w')
           | (Inr response, w') \<Rightarrow>
               (case try_map (\<lambda>item. serializeKey item cfg)
                       (case Items response of None \<Rightarrow> [] | Some its \<Rightarrow> its) of
                  Inl e \<Rightarrow> Some (Inl e, w')
                | Inr serialized \<Rightarrow>
                    (case LastEvaluatedKey response of
                       None \<Rightarrow> Some (Inr (acc @ serialized), w')
                     | Some c \<Rightarrow> keys_loop fuel cfg P pattern (Some c) (acc @ serialized) w'))))"

definition keys ::
  "nat \<Rightarrow> config \<Rightarrow> 'st provider \<Rightarrow> string option \<Rightarrow> 'st world
     \<Rightarrow> ((error + string option list) \<times> 'st world) option" where
  "keys fuel cfg P pattern w =
     (case validateKeyPattern pattern of
        Inl e \<Rightarrow> Some (Inl e, w)
      | Inr u \<Rightarrow> keys_loop fuel cfg P pattern None [] w)"

text \<open>
  \<open>ttl\<close> reads the member \<open>N\<close> of the returned record's expiration attribute; the result is
  a number, \<open>None\<close> standing for \<open>NaN\<close>.
\<close>

definition ttl :: "config \<Rightarrow> 'st provider \<Rightarrow> int \<Rightarrow> string \<Rightarrow> 'st world \<Rightarrow> (error + int option) \<times> 'st world" where
  "ttl cfg P now key w =
     (case buildTTLInput key cfg of
        Inl e \<Rightarrow> (Inl e, w)
      | Inr inp \<Rightarrow>
          (case send P (GetItemCommand inp) w of
             (Inl e, w') \<Rightarrow> (Inl e, w')
           | (Inr response, w') \<Rightarrow>
               (case Item_out response of
                  None \<Rightarrow> (Inr (Some (- 1)), w')
                | Some it \<Rightarrow>
                    (case map_of it (ex (cfg_keys cfg)) of
                       None \<Rightarrow> (Inl TypeError, w')
                     | Some a \<Rightarrow>
                         (case member_N a of
                            None \<Rightarrow> (Inr (Some (- 1)), w')
                          | Some expiresAt \<Rightarrow>
                              if expiresAt = [] then (Inr (Some (- 1)), w')
                              else (Inr (case parseInt expiresAt of
                                           None \<Rightarrow> None
                                         | Some n \<Rightarrow> Some (n * 1000 - now)), w'))))))"

definition touch ::
  "config \<Rightarrow> 'st provider \<Rightarrow> int \<Rightarrow> string \<Rightarrow> int option \<Rightarrow> 'st world \<Rightarrow> (error + unit) \<times> 'st world" where
  "touch cfg P now key t w =
     (case buildTouchInput key (with_ttl cfg t) now of
        Inl e \<Rightarrow> (Inl e, w)
      | Inr inp \<Rightarrow>
          (case send P (UpdateItemCommand inp) w of
             (Inl e, w') \<Rightarrow> (Inl e, w')
           | (Inr response, w') \<Rightarrow> (Inr (), w')))"

section \<open>The backoff helper (utils/backoff.ts)\<close>

text \<open>
  \<open>backoff\<close> hands the request to \<open>backOff\<close> of the library \<open>exponential-backoff\<close> with
  the retry predicate \<open>err instanceof UnprocessedDataException\<close>. The library calls the
  request, and after an exception calls it again when the predicate holds and fewer than
  \<open>numOfAttempts\<close> calls were made (10 when the option is absent, at least 1); otherwise
  it throws the exception. The delays between the calls and the other options of the
  library are not modelled. The request is a function on the world it acts on.
\<close>

fun backOff ::
  "(error \<Rightarrow> bool) \<Rightarrow> nat \<Rightarrow> ('w \<Rightarrow> (error + 'a) \<times> 'w) \<Rightarrow> 'w \<Rightarrow> (error + 'a) \<times> 'w" where
  "backOff retry 0 request w = (Inl (Error ''Something went wrong.''), w)"
| "backOff retry (Suc n) request w =
     (case request w of
        (Inr x, w') \<Rightarrow> (Inr x, w')
      | (Inl e, w') \<Rightarrow> if \<not> retry e \<or> n = 0 then (Inl e, w') else backOff retry n request w')"

definition backoff :: "('w \<Rightarrow> (error + 'a) \<times> 'w) \<Rightarrow> nat option \<Rightarrow> 'w \<Rightarrow> (error + 'a) \<times> 'w" where
  "backoff request numOfAttempts w =
     backOff (\<lambda>err. err = UnprocessedDataException)
       (case numOfAttempts of None \<Rightarrow> 10 | Some n \<Rightarrow> max 1 n) request w"

section \<open>A provider that keeps a table\<close>

text \<open>
  To state what a stored entry is, the provider is given a model of its own: a table of
  records with the key attributes \<open>ka\<close>, answering the commands as the provider documents
  them, for the requests the builders produce. A record is found by the attributes of the
  request's \<open>Key\<close>; \<open>PutItem\<close> replaces the record with the same key; \<open>UpdateItem\<close> with
  the expression \<open>set #ex = :ex\<close> writes that one attribute of the record, creating the
  record when there is none; \<open>Scan\<close> and \<open>Query\<close> return what they find in one page, the
  attributes of the projection only; a batch is processed whole. Nothing is removed for
  its expiration attribute: the provider's sweep is not part of the model.
\<close>

definition same_key :: "item \<Rightarrow> item \<Rightarrow> bool" where
  "same_key key it = list_all (\<lambda>kv. map_of it (fst kv) = Some (snd kv)) key"

definition key_of :: "string list \<Rightarrow> item \<Rightarrow> item" where
  "key_of ka it = filter (\<lambda>kv. fst kv \<in> set ka) it"

definition resolve_name :: "input \<Rightarrow> string \<Rightarrow> string" where
  "resolve_name inp tok =
     (case ExpressionAttributeNames inp of
        None \<Rightarrow> tok
      | Some names \<Rightarrow> (case map_of names tok of Some (Some n) \<Rightarrow> n | _ \<Rightarrow> tok))"

definition resolve_value :: "input \<Rightarrow> string \<Rightarrow> attr option" where
  "resolve_value inp tok =
     (case ExpressionAttributeValues inp of
        None \<Rightarrow> None
      | Some vals \<Rightarrow> (case map_of vals tok of Some (Some v) \<Rightarrow> Some v | _ \<Rightarrow> None))"

definition project :: "input \<Rightarrow> item \<Rightarrow> item" where
  "project inp it =
     (case ProjectionExpression inp of
        None \<Rightarrow> it
      | Some e \<Rightarrow>
          (let names = map (\<lambda>tok. resolve_name inp (dropWhile is_space tok)) (str_split CHR '','' e)
           in filter (\<lambda>kv. fst kv \<in> set names) it))"

fun update_first :: "('a \<Rightarrow> bool) \<Rightarrow> ('a \<Rightarrow> 'a) \<Rightarrow> 'a list \<Rightarrow> 'a list" where
  "update_first p f [] = []"
| "update_first p f (x # xs) = (if p x then f x # xs else x # update_first p f xs)"

definition put_item :: "string list \<Rightarrow> item \<Rightarrow> item list \<Rightarrow> item list" where
  "put_item ka it tbl = filter (\<lambda>x. \<not> same_key (key_of ka it) x) tbl @ [it]"

definition delete_item :: "item \<Rightarrow> item list \<Rightarrow> item list" where
  "delete_item key tbl = filter (\<lambda>x. \<not> same_key key x) tbl"

definition update_item :: "item \<Rightarrow> string \<Rightarrow> attr \<Rightarrow> item list \<Rightarrow> item list" where
  "update_item key name v tbl =
     (case find (same_key key) tbl of
        None \<Rightarrow> tbl @ [assign key [(name, v)]]
      | Some it \<Rightarrow> update_first (same_key key) (AList.update name v) tbl)"

fun write_requests :: "string list \<Rightarrow> write_request list \<Rightarrow> item list \<Rightarrow> item list" where
  "write_requests ka [] tbl = tbl"
| "write_requests ka (PutRequest it # rs) tbl = write_requests ka rs (put_item ka it tbl)"
| "write_requests ka (DeleteRequest key # rs) tbl = write_requests ka rs (delete_item key tbl)"

definition begins_with :: "attr option \<Rightarrow> attr \<Rightarrow> bool" where
  "begins_with a p =
     (case (a, p) of
        (Some (S (Some x)), S (Some y)) \<Rightarrow> take (length y) x = y
      | _ \<Rightarrow> False)"

definition dynamo :: "string list \<Rightarrow> item list provider" where
  "dynamo ka c tbl =
     (case c of
        GetItemCommand inp \<Rightarrow>
          (case Key inp of
             None \<Rightarrow> (Inl (Error ''ValidationException''), tbl)
           | Some key \<Rightarrow>
               (Inr (empty_response\<lparr>Item_out := map_option (project inp) (find (same_key key) tbl)\<rparr>),
                tbl))
      | PutItemCommand inp \<Rightarrow>
          (case Item inp of
             None \<Rightarrow> (Inl (Error ''ValidationException''), tbl)
           | Some it \<Rightarrow> (Inr empty_response, put_item ka it tbl))
      | DeleteItemCommand inp \<Rightarrow>
          (case Key inp of
             None \<Rightarrow> (Inl (Error ''ValidationException''), tbl)
           | Some key \<Rightarrow> (Inr empty_response, delete_item key tbl))
      | UpdateItemCommand inp \<Rightarrow>
          (case (Key inp, UpdateExpression inp, resolve_value inp '':ex'') of
             (Some key, Some e, Some v) \<Rightarrow>
               if e = ''set #ex = :ex''
               then (Inr empty_response, update_item key (resolve_name inp ''#ex'') v tbl)
               else (Inl (Error ''ValidationException''), tbl)
           | _ \<Rightarrow> (Inl (Error ''ValidationException''), tbl))
      | ScanCommand inp \<Rightarrow>
          (Inr (empty_response\<lparr>Items := Some (map (project inp) tbl)\<rparr>), tbl)
      | QueryCommand inp \<Rightarrow>
          (case (resolve_value inp '':pk'', resolve_value inp '':sk'') of
             (Some p, Some q) \<Rightarrow>
               (Inr (empty_response\<lparr>Items :=
                       Some (map (project inp)
                               (filter (\<lambda>it. map_of it (resolve_name inp ''#pk'') = Some p
                                              \<and> begins_with (map_of it (resolve_name inp ''#sk'')) q)
                                  tbl))\<rparr>),
                tbl)
           | _ \<Rightarrow> (Inl (Error ''ValidationException''), tbl))
      | BatchGetItemCommand inp \<Rightarrow>
          (case RequestItems inp of
             Some [(t, Keys ks)] \<Rightarrow>
               (Inr (empty_response\<lparr>Responses :=
                       Some [(t, concat (map (\<lambda>key. case find (same_key key) tbl of
                                                          None \<Rightarrow> []
                                                        | Some it \<Rightarrow> [it]) ks))],
                       UnprocessedKeys := Some []\<rparr>),
                tbl)
           | _ \<Rightarrow> (Inl (Error ''ValidationException''), tbl))
      | BatchWriteItemCommand inp \<Rightarrow>
          (case RequestItems inp of
             Some [(t, Requests rs)] \<Rightarrow>
               (Inr (empty_response\<lparr>UnprocessedItems := Some []\<rparr>), write_requests ka rs tbl)
           | _ \<Rightarrow> (Inl (Error ''ValidationException''), tbl)))"

section \<open>The configuration and the mocked provider of the tests\<close>

definition test_config :: config where
  "test_config =
     \<lparr>cfg_table = ''TestCache'',
      cfg_keys = \<lparr>pk = ''Id'', sk = Some ''Name'', ex = ''ExpiresAt''\<rparr>,
      cfg_ttl = Some 300000,
      cfg_meta = Some (\<lambda>data. [(''CreatedAt'', Num ''1701732465'')])\<rparr>"

text \<open>
  The mock of the tests that never finishes a batch: every response reports an unprocessed
  subset that is not empty.
\<close>

definition throttled :: "unit provider" where
  "throttled c st =
     (Inr (empty_response\<lparr>
             UnprocessedKeys := Some [(''TestCache'', [[(''Id'', S (Some ''123'')), (''Name'', S (Some ''bbb''))]])],
             UnprocessedItems := Some [(''TestCache'', [PutRequest [(''b'', N ''1'')]])]\<rparr>), st)"

text \<open>
  The table provider of the tests' schema, and the record that
  \<open>store.set('123+foo', 1000)\<close> writes at the instant 1701732105000 under the tests'
  configuration: it expires at the second 1701732405.
\<close>

definition table_provider :: "item list provider" where
  "table_provider = dynamo [''Id'', ''Name'']"

definition stored_entry :: item where
  "stored_entry =
     [(''data'', N ''1000''), (''CreatedAt'', N ''1701732465''),
      (''Id'', S (Some ''123'')), (''Name'', S (Some ''foo'')),
      (''ExpiresAt'', N ''1701732405'')]"

section \<open>Observing the commands sent\<close>

text \<open>
  The size of a batch command: the number of keys that the \<open>RequestItems\<close> of a batch read
  carries, and the number of put and delete requests that those of a batch write carry. A
  command of another kind has size 0.
\<close>

definition request_count :: "input \<Rightarrow> nat" where
  "request_count inp =
     (case RequestItems inp of
        None \<Rightarrow> 0
      | Some ts \<Rightarrow>
          sum_list (map (\<lambda>tr. case snd tr of Keys ks \<Rightarrow> length ks | Requests rs \<Rightarrow> length rs) ts))"

definition read_size :: "command \<Rightarrow> nat" where
  "read_size c = (case c of BatchGetItemCommand inp \<Rightarrow> request_count inp | _ \<Rightarrow> 0)"

definition write_size :: "command \<Rightarrow> nat" where
  "write_size c = (case c of BatchWriteItemCommand inp \<Rightarrow> request_count inp | _ \<Rightarrow> 0)"

text \<open>
  The expiration attribute of each record that a command puts: of the \<open>Item\<close> of a
  \<open>PutItem\<close> command, and of the item of each put request of a batch write, in order.
\<close>

definition put_expirations :: "config \<Rightarrow> command \<Rightarrow> attr option list" where
  "put_expirations cfg c =
     (case c of
        PutItemCommand inp \<Rightarrow>
          (case Item inp of None \<Rightarrow> [] | Some it \<Rightarrow> [map_of it (ex (cfg_keys cfg))])
      | BatchWriteItemCommand inp \<Rightarrow>
          (case RequestItems inp of
             None \<Rightarrow> []
           | Some ts \<Rightarrow>
               concat (map (\<lambda>tr. case snd tr of
                                   Keys ks \<Rightarrow> []
                                 | Requests rs \<Rightarrow>
                                     concat (map (\<lambda>r. case r of
                                                         PutRequest it \<Rightarrow> [map_of it (ex (cfg_keys cfg))]
                                                       | DeleteRequest k \<Rightarrow> []) rs)) ts))
      | _ \<Rightarrow> [])"

text \<open>
  A returned record encodes to a key when \<open>serializeKey\<close> gives that key for it (as the
  property name under which \<open>mget\<close> files the record).
\<close>

definition encodes_to :: "config \<Rightarrow> string \<Rightarrow> item \<Rightarrow> bool" where
  "encodes_to cfg key it = (case serializeKey it cfg of Inl e \<Rightarrow> False | Inr k \<Rightarrow> template k = key)"

text \<open>A provider whose every call raises the same service exception.\<close>

definition failing :: "error \<Rightarrow> unit provider" where
  "failing e c st = (Inl e, st)"

section \<open>The specification's reading of a valid key pattern\<close>

text \<open>
  The specification's words for a valid key pattern, to be compared with
  \<open>validateKeyPattern\<close>: the pattern is absent, or it ends with exactly one mask character,
  contains exactly one delimiter, and contains the mask character at most twice.
\<close>

definition spec_pattern_valid :: "string option \<Rightarrow> bool" where
  "spec_pattern_valid pattern =
     (case pattern of
        None \<Rightarrow> True
      | Some p \<Rightarrow>
          endsWith p MASK \<and> \<not> endsWith (butlast p) MASK
          \<and> count_list p DELIMITER = 1 \<and> count_list p MASK \<le> 2)"

section \<open>The specification's reading of the default TTL\<close>

text \<open>
  The specification's words for the TTL of a call whose \<open>ttl\<close> argument is not used: the
  configured default TTL, or the built-in 60000 ms default when none is configured. A
  configured default of 0 is read as none configured.
\<close>

definition spec_default_ttl :: "config \<Rightarrow> int" where
  "spec_default_ttl cfg =
     (case cfg_ttl cfg of None \<Rightarrow> 60000 | Some d \<Rightarrow> if d = 0 then 60000 else d)"

section \<open>Properties of the key codec\<close>

lemma length_str_split: "length (str_split d s) = Suc (count_list s d)"
  by (induction s) auto

lemma str_split_without: "d \<notin> set s \<Longrightarrow> str_split d s = [s]"
  by (induction s) auto

lemma str_split_first: "d \<notin> set a \<Longrightarrow> str_split d (a @ d # b) = a # str_split d b"
  by (induction a) auto

lemma count_list_le_one_cases:
  assumes "count_list k d \<le> 1"
  shows "d \<notin> set k \<or> (\<exists>a b. k = a @ d # b \<and> d \<notin> set a \<and> d \<notin> set b)"
proof (cases "d \<in> set k")
  case False
  then show ?thesis by simp
next
  case True
  then obtain a b where k: "k = a @ d # b" and a: "d \<notin> set a"
    by (auto dest: split_list_first)
  from assms k a have "count_list b d = 0" by (simp add: count_list_0_iff)
  then have "d \<notin> set b" by (simp add: count_list_0_iff)
  with k a show ?thesis by blast
qed

text \<open>
  Claim C2, as amended. Under a schema whose sort field is named, and named differently
  from the partition field, a logical key that is not empty, does not start or end with the
  delimiter and contains the delimiter at most once is decoded to a store key that encodes
  back to the same logical key.
\<close>

theorem key_roundtrip:
  assumes "sk (cfg_keys cfg) = Some n" and "n \<noteq> []" and "n \<noteq> pk (cfg_keys cfg)"
    and "k \<noteq> []" and "\<not> startsWith k DELIMITER" and "\<not> endsWith k DELIMITER"
    and "count_list k DELIMITER \<le> 1"
  shows "\<exists>key. deserializeKey k cfg = Inr key \<and> serializeKey key cfg = Inr (Some k)"
proof -
  consider
      (none) "DELIMITER \<notin> set k"
    | (one) a b where "k = a @ DELIMITER # b" "DELIMITER \<notin> set a" "DELIMITER \<notin> set b"
    using count_list_le_one_cases [OF assms(7)] by blast
  then show ?thesis
  proof cases
    case none
    then have "str_split DELIMITER k = [k]" by (rule str_split_without)
    with assms show ?thesis
      by (simp add: deserializeKey_def serializeKey_def assign_def member_S_def truthy_str_def)
  next
    case one
    then have sp: "str_split DELIMITER k = [a, b]"
      by (simp add: str_split_first str_split_without)
    from one assms(6) have "b \<noteq> []" by (auto simp: endsWith_def)
    with sp assms one show ?thesis
      by (simp add: deserializeKey_def serializeKey_def assign_def member_S_def truthy_str_def
          template_def)
  qed
qed

theorem key_roundtrip_witness:
  "\<exists>key. deserializeKey ''123+foo'' test_config = Inr key
         \<and> serializeKey key test_config = Inr (Some ''123+foo'')"
  using key_roundtrip [of test_config "''Name''" "''123+foo''"]
  by (simp add: test_config_def startsWith_def endsWith_def DELIMITER_def)

text \<open>
  The claim as stated fails for a key with a second delimiter: \<open>a+b+c\<close> is not empty and
  does not start with the delimiter, its store key holds \<open>a\<close> and \<open>b\<close>, and that store key
  encodes to \<open>a+b\<close>. It fails as well for a key that ends with the delimiter: the store key
  of \<open>a+\<close> holds an empty sort value and encodes to \<open>a\<close>.
\<close>

theorem key_roundtrip_counterexample:
  "deserializeKey ''a+b+c'' test_config = Inr [(''Id'', S (Some ''a'')), (''Name'', S (Some ''b''))]
   \<and> serializeKey [(''Id'', S (Some ''a'')), (''Name'', S (Some ''b''))] test_config = Inr (Some ''a+b'')
   \<and> ''a+b'' \<noteq> ''a+b+c''
   \<and> deserializeKey ''a+'' test_config = Inr [(''Id'', S (Some ''a'')), (''Name'', S (Some []))]
   \<and> serializeKey [(''Id'', S (Some ''a'')), (''Name'', S (Some []))] test_config = Inr (Some ''a'')
   \<and> ''a'' \<noteq> ''a+''"
  by (simp add: deserializeKey_def serializeKey_def test_config_def startsWith_def DELIMITER_def
      assign_def member_S_def truthy_str_def template_def)

text \<open>
  Claim C4, as amended. \<open>validateKeyPattern\<close> succeeds exactly when the pattern is absent or
  empty, or ends with the mask character, contains the mask character exactly once and
  contains the delimiter exactly once; otherwise it fails with the bad-pattern error. In
  particular \<open>bar+fo*\<close> is accepted, and \<open>bar*\<close>, \<open>bar+fo**\<close> and \<open>bar+fo*+baz*\<close> are
  rejected.
\<close>

theorem validateKeyPattern_accepts:
  "(validateKeyPattern pattern = Inr () \<longleftrightarrow>
      (case pattern of
         None \<Rightarrow> True
       | Some p \<Rightarrow> p = [] \<or> (endsWith p MASK \<and> count_list p MASK = 1 \<and> count_list p DELIMITER = 1)))
   \<and> (validateKeyPattern pattern = Inr () \<or> validateKeyPattern pattern = Inl bad_pattern)
   \<and> validateKeyPattern (Some ''bar+fo*'') = Inr ()
   \<and> validateKeyPattern (Some ''bar*'') = Inl bad_pattern
   \<and> validateKeyPattern (Some ''bar+fo**'') = Inl bad_pattern
   \<and> validateKeyPattern (Some ''bar+fo*+baz*'') = Inl bad_pattern"
proof -
  have iff: "validateKeyPattern pattern = Inr () \<longleftrightarrow>
      (case pattern of
         None \<Rightarrow> True
       | Some p \<Rightarrow> p = [] \<or> (endsWith p MASK \<and> count_list p MASK = 1 \<and> count_list p DELIMITER = 1))"
  proof (cases pattern)
    case None
    then show ?thesis by (simp add: validateKeyPattern_def)
  next
    case (Some p)
    have "endsWith p MASK \<Longrightarrow> count_list p MASK \<noteq> 0"
      by (cases p rule: rev_cases) (auto simp: endsWith_def)
    then show ?thesis using Some
      by (auto simp: validateKeyPattern_def length_str_split)
  qed
  have alt: "validateKeyPattern pattern = Inr () \<or> validateKeyPattern pattern = Inl bad_pattern"
    by (simp add: validateKeyPattern_def split: option.split)
  have ex: "validateKeyPattern (Some ''bar+fo*'') = Inr ()"
    "validateKeyPattern (Some ''bar*'') = Inl bad_pattern"
    "validateKeyPattern (Some ''bar+fo**'') = Inl bad_pattern"
    "validateKeyPattern (Some ''bar+fo*+baz*'') = Inl bad_pattern"
    by (simp_all add: validateKeyPattern_def endsWith_def MASK_def DELIMITER_def)
  from iff alt ex show ?thesis by blast
qed

theorem validateKeyPattern_accepts_witness:
  "validateKeyPattern (Some ''123+b*'') = Inr ()"
  using validateKeyPattern_accepts [of "Some ''123+b*''"]
  by (simp add: endsWith_def MASK_def DELIMITER_def)

text \<open>
  The claim as stated fails for \<open>a*+b*\<close>: it ends with exactly one mask character, has one
  delimiter and two mask characters, and is rejected. It fails as well for the empty
  string, which is a pattern that does not end with the mask character, and is accepted.
\<close>

theorem validateKeyPattern_counterexample:
  "spec_pattern_valid (Some ''a*+b*'') \<and> validateKeyPattern (Some ''a*+b*'') = Inl bad_pattern
   \<and> \<not> spec_pattern_valid (Some []) \<and> validateKeyPattern (Some []) = Inr ()"
  by (simp add: spec_pattern_valid_def validateKeyPattern_def endsWith_def MASK_def DELIMITER_def)

section \<open>Numbers as strings\<close>

text \<open>Parsing the decimal string of an integer gives the integer back.\<close>

lemma digit_char_props:
  assumes "d < 10"
  shows "is_digit (digit_char d)" and "digit_val (digit_char d) = d"
    and "\<not> is_space (digit_char d)" and "digit_char d \<noteq> CHR ''-''" and "digit_char d \<noteq> CHR ''+''"
proof -
  from assms consider "d = 0" | "d = 1" | "d = 2" | "d = 3" | "d = 4" | "d = 5" | "d = 6"
    | "d = 7" | "d = 8" | "d = 9" by (auto simp: less_Suc_eq numeral_eq_Suc)
  then have "is_digit (digit_char d) \<and> digit_val (digit_char d) = d
    \<and> \<not> is_space (digit_char d) \<and> digit_char d \<noteq> CHR ''-'' \<and> digit_char d \<noteq> CHR ''+''"
    by cases (simp_all add: digit_char_def is_digit_def digit_val_def is_space_def)
  then show "is_digit (digit_char d)" and "digit_val (digit_char d) = d"
    and "\<not> is_space (digit_char d)" and "digit_char d \<noteq> CHR ''-''" and "digit_char d \<noteq> CHR ''+''"
    by simp_all
qed

lemma digits_not_Nil: "digits n \<noteq> []"
  by (subst digits.simps) simp

lemma digits_are_digits: "c \<in> set (digits n) \<Longrightarrow> is_digit c"
proof (induction n arbitrary: c rule: digits.induct)
  case (1 n)
  show ?case
  proof (cases "n < 10")
    case True
    with "1.prems" show ?thesis by (subst (asm) digits.simps) (simp add: digit_char_props)
  next
    case False
    with "1.prems" have "c \<in> set (digits (n div 10)) \<or> c = digit_char (n mod 10)"
      by (subst (asm) digits.simps) auto
    with "1.IH" False show ?thesis by (auto simp: digit_char_props)
  qed
qed

lemma dec_val_snoc: "dec_val (ds @ [c]) = 10 * dec_val ds + digit_val c"
  by (simp add: dec_val_def)

lemma dec_val_digits: "dec_val (digits n) = n"
proof (induction n rule: digits.induct)
  case (1 n)
  show ?case
  proof (cases "n < 10")
    case True
    then show ?thesis by (subst digits.simps) (simp add: dec_val_def digit_char_props)
  next
    case False
    with "1.IH" have "dec_val (digits (n div 10)) = n div 10" by simp
    with False show ?thesis
      by (subst digits.simps) (simp add: dec_val_snoc digit_char_props)
  qed
qed

lemma parseInt_digits: "parseInt (digits n) = Some (int n)"
proof -
  obtain c cs where d: "digits n = c # cs" using digits_not_Nil [of n] by (cases "digits n") auto
  then have c: "is_digit c" using digits_are_digits [of c n] by simp
  have "\<And>d. is_digit d \<Longrightarrow> \<not> is_space d \<and> d \<noteq> CHR ''-'' \<and> d \<noteq> CHR ''+''"
    by (auto simp: is_digit_def is_space_def)
  with c have nc: "\<not> is_space c" "c \<noteq> CHR ''-''" "c \<noteq> CHR ''+''" by auto
  have tw: "takeWhile is_digit (digits n) = digits n"
    by (simp add: takeWhile_eq_all_conv digits_are_digits)
  have "dropWhile is_space (digits n) = digits n" using d nc by simp
  then show ?thesis using d nc tw dec_val_digits [of n]
    by (simp add: parseInt_def Let_def)
qed

lemma parseInt_toString: "parseInt (toString i) = Some i"
proof (cases "i < 0")
  case False
  then show ?thesis by (simp add: toString_def parseInt_digits)
next
  case True
  have tw: "takeWhile is_digit (digits (nat (- i))) = digits (nat (- i))"
    by (simp add: takeWhile_eq_all_conv digits_are_digits)
  have "\<not> is_space CHR ''-''" by (simp add: is_space_def)
  with True show ?thesis
    unfolding toString_def parseInt_def Let_def
    by (simp add: tw digits_not_Nil dec_val_digits)
qed

lemma toString_not_Nil: "toString i \<noteq> []"
  by (simp add: toString_def digits_not_Nil)

lemma digits_numeral:
  "digits (numeral n) = (if (numeral n :: nat) < 10 then [digit_char (numeral n)]
     else digits (numeral n div 10) @ [digit_char (numeral n mod 10)])"
  "digits (Suc 0) = [digit_char 1]"
  "digits 0 = [digit_char 0]"
  by (subst digits.simps, simp)+

section \<open>Evaluating the operations\<close>

text \<open>The definitions that evaluating an operation on a concrete input unfolds.\<close>

lemmas eval_defs =
  test_config_def throttled_def failing_def
  mget_def mget_chunk_def mget_collect_def mset_def mset_chunk_def mdel_def
  buildMGetInput_def buildMSetInput_def buildMDelInput_def build_Item_def
  buildGetInput_def buildSetInput_def buildDelInput_def buildTTLInput_def buildTouchInput_def
  buildScanKeysInput_def buildQueryKeysInput_def with_cursor_def projection_def
  deserializeKey_def serializeKey_def startsWith_def endsWith_def DELIMITER_def MASK_def
  assign_def member_S_def member_N_def truthy_str_def truthy_num_def template_def
  marshall_data_def marshall_def unmarshall_def convertToAttr_def convertToNative_def
  read_item_def isExpired_def get_prop_def get_member_def parseInt_val_def
  with_ttl_def js_or_def defaultTtl_def expiresAt_string_def
  send_def promise_all_def empty_input_def empty_response_def
  get_def set_entry_def del_def ttl_def touch_def keys_def keys_command_def
  validateKeyPattern_def eraseMask_def

lemmas dynamo_defs =
  table_provider_def dynamo_def same_key_def key_of_def resolve_name_def resolve_value_def
  project_def put_item_def delete_item_def update_item_def begins_with_def is_space_def
  stored_entry_def

lemmas number_defs =
  msToS_def toString_def digits_numeral digit_char_def
  parseInt_def dec_val_def digit_val_def is_digit_def

section \<open>Encoding under a schema without a sort field\<close>

lemma serializeKey_error: "serializeKey item cfg = Inl e \<Longrightarrow> e = TypeError"
  by (auto simp: serializeKey_def split: option.splits)

lemma try_map_fails:
  assumes "x \<in> set xs" and "isl (f x)"
  shows "isl (try_map f xs)"
  using assms by (induction xs) (auto split: sum.splits)

lemma try_map_error: "try_map f xs = Inl e \<Longrightarrow> \<exists>x\<in>set xs. f x = Inl e"
  by (induction xs arbitrary: e) (auto split: sum.splits)

lemma index_items_fails:
  assumes "x \<in> set items" and "isl (serializeKey x cfg)"
  shows "index_items cfg items acc = Inl TypeError"
  using assms
proof (induction items arbitrary: acc)
  case Nil
  then show ?case by simp
next
  case (Cons y ys)
  show ?case
  proof (cases "serializeKey y cfg")
    case (Inl e)
    then show ?thesis using serializeKey_error [OF Inl] by simp
  next
    case (Inr k)
    with Cons show ?thesis by auto
  qed
qed

text \<open>
  Claim C9. When the schema names no sort field, \<open>serializeKey\<close> reads the attribute named
  by the empty string; for a record without that attribute it raises a \<open>TypeError\<close>. So
  \<open>keys()\<close> fails as soon as a page of the scan holds such a record, and a chunk of \<open>mget\<close>
  fails as soon as its response holds one.
\<close>

theorem sortless_schema_cannot_encode:
  assumes "sk (cfg_keys cfg) = None" and "map_of item [] = None"
  shows "serializeKey item cfg = Inl TypeError
    \<and> (P (ScanCommand (buildScanKeysInput None cfg)) st = (Inr response, st')
         \<and> Items response = Some items \<and> item \<in> set items
       \<longrightarrow> keys (Suc fuel) cfg P None (st, log)
             = Some (Inl TypeError, (st', log @ [ScanCommand (buildScanKeysInput None cfg)])))
    \<and> (buildMGetInput ks cfg = Inr inp
         \<and> P (BatchGetItemCommand inp) st = (Inr response, st')
         \<and> Responses response = Some rs \<and> map_of rs (cfg_table cfg) = Some items
         \<and> item \<in> set items
       \<longrightarrow> mget_chunk cfg P now ks (st, log)
             = (Inl TypeError, (st', log @ [BatchGetItemCommand inp])))"
proof -
  have ser: "serializeKey item cfg = Inl TypeError"
    using assms by (simp add: serializeKey_def split: option.split)
  have k: "keys (Suc fuel) cfg P None (st, log)
             = Some (Inl TypeError, (st', log @ [ScanCommand (buildScanKeysInput None cfg)]))"
    if p: "P (ScanCommand (buildScanKeysInput None cfg)) st = (Inr response, st')"
      and its: "Items response = Some items" and mem: "item \<in> set items"
  proof -
    from mem ser have "isl (try_map (\<lambda>item. serializeKey item cfg) items)"
      by (intro try_map_fails [where x = item]) simp_all
    then obtain e where e: "try_map (\<lambda>item. serializeKey item cfg) items = Inl e"
      by (cases "try_map (\<lambda>item. serializeKey item cfg) items") simp_all
    from try_map_error [OF e] serializeKey_error have "e = TypeError" by blast
    with e p its show ?thesis
      by (simp add: keys_def validateKeyPattern_def keys_command_def send_def)
  qed
  have m: "mget_chunk cfg P now ks (st, log)
             = (Inl TypeError, (st', log @ [BatchGetItemCommand inp]))"
    if b: "buildMGetInput ks cfg = Inr inp"
      and p: "P (BatchGetItemCommand inp) st = (Inr response, st')"
      and r: "Responses response = Some rs" "map_of rs (cfg_table cfg) = Some items"
      and mem: "item \<in> set items"
  proof -
    from mem ser have "index_items cfg items [] = Inl TypeError"
      by (intro index_items_fails [where x = item]) simp_all
    with b p r show ?thesis
      by (simp add: mget_chunk_def send_def mget_collect_def)
  qed
  from ser k m show ?thesis by blast
qed

theorem sortless_schema_cannot_encode_witness:
  "serializeKey [(''Id'', S (Some ''123''))] (test_config\<lparr>cfg_keys := \<lparr>pk = ''Id'', sk = None, ex = ''ExpiresAt''\<rparr>\<rparr>) = Inl TypeError
   \<and> fst (the (keys 1 (test_config\<lparr>cfg_keys := \<lparr>pk = ''Id'', sk = None, ex = ''ExpiresAt''\<rparr>\<rparr>)
         (dynamo [''Id'']) None ([[(''Id'', S (Some ''123'')), (''ExpiresAt'', N ''60'')]], []))) = Inl TypeError"
  using sortless_schema_cannot_encode [of "test_config\<lparr>cfg_keys := \<lparr>pk = ''Id'', sk = None, ex = ''ExpiresAt''\<rparr>\<rparr>"
      "[(''Id'', S (Some ''123''))]" "dynamo [''Id'']" "[[(''Id'', S (Some ''123'')), (''ExpiresAt'', N ''60'')]]"
      "empty_response\<lparr>Items := Some [[(''Id'', S (Some ''123''))]]\<rparr>"
      "[[(''Id'', S (Some ''123'')), (''ExpiresAt'', N ''60'')]]" "[[(''Id'', S (Some ''123''))]]" 0 "[]"]
  by (simp add: test_config_def dynamo_def buildScanKeysInput_def with_cursor_def projection_def
      truthy_str_def project_def empty_input_def resolve_name_def is_space_def)

section \<open>Chunks, promises and the commands sent\<close>

lemma chunk_Nil: "chunk [] n = []"
  by (simp add: chunk.simps)

lemma chunk_step: "0 < n \<Longrightarrow> xs \<noteq> [] \<Longrightarrow> chunk xs n = take n xs # chunk (drop n xs) n"
  by (subst chunk.simps) simp

lemma chunk_single:
  assumes "xs \<noteq> []" and "length xs \<le> n"
  shows "chunk xs n = [xs]"
proof -
  from assms have "0 < n" by (cases xs) auto
  with assms show ?thesis by (subst chunk.simps) (simp add: chunk_Nil)
qed

lemma concat_chunk: "0 < n \<Longrightarrow> concat (chunk xs n) = xs"
  by (induction xs n rule: chunk.induct) (subst chunk.simps, simp)

lemma chunk_parts: "0 < n \<Longrightarrow> list_all (\<lambda>c. c \<noteq> [] \<and> length c \<le> n) (chunk xs n)"
  by (induction xs n rule: chunk.induct) (subst chunk.simps, auto)

lemma chunk_subset: "c \<in> set (chunk xs n) \<Longrightarrow> set c \<subseteq> set xs"
proof (induction xs n arbitrary: c rule: chunk.induct)
  case (1 xs n)
  show ?case
  proof (cases "n = 0 \<or> xs = []")
    case True
    with "1.prems" show ?thesis by (simp add: chunk.simps)
  next
    case False
    with "1.prems" have "c = take n xs \<or> c \<in> set (chunk (drop n xs) n)"
      by (subst (asm) chunk.simps) auto
    then show ?thesis
    proof
      assume "c = take n xs"
      then show ?thesis by (auto dest: in_set_takeD)
    next
      assume "c \<in> set (chunk (drop n xs) n)"
      with "1.IH" False have "set c \<subseteq> set (drop n xs)" by blast
      then show ?thesis by (auto dest: in_set_dropD)
    qed
  qed
qed

lemma chunk_two:
  assumes "n < length xs" and "length xs \<le> 2 * n"
  shows "map length (chunk xs n) = [n, length xs - n]"
proof -
  from assms have n: "0 < n" and ne: "xs \<noteq> []" by auto
  from assms have d: "drop n xs \<noteq> []" "length (drop n xs) \<le> n" by auto
  have "chunk xs n = [take n xs, drop n xs]"
    by (simp add: chunk_step [OF n ne] chunk_single [OF d])
  with assms show ?thesis by simp
qed

lemma try_map_total:
  assumes "\<And>x. x \<in> set xs \<Longrightarrow> \<exists>y. f x = Inr y"
  shows "\<exists>ys. try_map f xs = Inr ys \<and> length ys = length xs"
  using assms
proof (induction xs)
  case Nil
  then show ?case by simp
next
  case (Cons x xs)
  then obtain y where y: "f x = Inr y" by auto
  from Cons obtain ys where "try_map f xs = Inr ys" "length ys = length xs" by auto
  with y show ?case by simp
qed

lemma try_map_length: "try_map f xs = Inr ys \<Longrightarrow> length ys = length xs"
  by (induction xs arbitrary: ys) (auto split: sum.splits)

lemma try_map_keeps_keys:
  "try_map (\<lambda>kd. case g (snd kd) of Inl e \<Rightarrow> Inl e | Inr m \<Rightarrow> Inr (fst kd, m)) c = Inr ms
     \<Longrightarrow> map fst ms = map fst c"
  by (induction c arbitrary: ms) (auto split: sum.splits)

lemma map_chunks_append:
  "map_chunks f (cs1 @ cs2) w =
     (case map_chunks f cs1 w of
        (rs1, w1) \<Rightarrow> (case map_chunks f cs2 w1 of (rs2, w2) \<Rightarrow> (rs1 @ rs2, w2)))"
  by (induction cs1 arbitrary: w) (auto split: prod.splits)

lemma map_chunks_reject:
  assumes "map_chunks f cs1 w = (rs1, w1)" and "f c w1 = (Inl e, w2)"
    and "map_chunks f cs2 w2 = (rs2, w')"
  shows "map_chunks f (cs1 @ c # cs2) w = (rs1 @ Inl e # rs2, w')"
  using assms by (simp add: map_chunks_append)

lemma map_chunks_log:
  assumes "\<And>c st log. c \<in> set cs \<Longrightarrow>
             \<exists>r st' cmd. f c (st, log) = (r, (st', log @ [cmd])) \<and> sz cmd = length c"
  shows "\<exists>rs st' log'. map_chunks f cs (st, log) = (rs, (st', log'))
           \<and> map sz log' = map sz log @ map length cs"
  using assms
proof (induction cs arbitrary: st log)
  case Nil
  then show ?case by simp
next
  case (Cons c cs)
  from Cons.prems [of c st log] obtain r st1 cmd
    where c: "f c (st, log) = (r, (st1, log @ [cmd]))" "sz cmd = length c" by auto
  from Cons.IH [of st1 "log @ [cmd]"] Cons.prems obtain rs st' log'
    where r: "map_chunks f cs (st1, log @ [cmd]) = (rs, (st', log'))"
      "map sz log' = map sz (log @ [cmd]) @ map length cs" by auto
  from c r show ?case by simp
qed

lemma map_chunks_not:
  assumes "\<And>c w. fst (f c w) \<noteq> Inl e"
  shows "Inl e \<notin> set (fst (map_chunks f cs w))"
  using assms
proof (induction cs arbitrary: w)
  case Nil
  then show ?case by simp
next
  case (Cons c cs)
  obtain r w1 where r: "f c w = (r, w1)" by (cases "f c w")
  obtain rs w2 where rs: "map_chunks f cs w1 = (rs, w2)" by (cases "map_chunks f cs w1")
  from Cons.prems [of c w] r have "r \<noteq> Inl e" by simp
  moreover from Cons.IH [OF Cons.prems, of w1] rs have "Inl e \<notin> set rs" by simp
  ultimately show ?case using r rs by simp
qed

lemma mdel_chunks_append:
  "mdel_chunks cfg P (cs1 @ cs2) w =
     (case mdel_chunks cfg P cs1 w of
        (Inl e, w1) \<Rightarrow> (Inl e, w1)
      | (Inr rs1, w1) \<Rightarrow>
          (case mdel_chunks cfg P cs2 w1 of
             (Inl e, w2) \<Rightarrow> (Inl e, w2)
           | (Inr rs2, w2) \<Rightarrow> (Inr (rs1 @ rs2), w2)))"
  by (induction cs1 arbitrary: w) (auto split: prod.splits sum.splits)

lemma lefts_append: "lefts (xs @ ys) = lefts xs @ lefts ys"
  by (induction xs rule: lefts.induct) auto

lemma lefts_mem: "e \<in> set (lefts rs) \<longleftrightarrow> Inl e \<in> set rs"
  by (induction rs rule: lefts.induct) auto

lemma lefts_nth_filter: "set (lefts (map (\<lambda>i. rs ! i) (filter (\<lambda>i. i < length rs) ord))) \<subseteq> set (lefts rs)"
  by (auto simp: lefts_mem)

lemma promise_all_Inl: "promise_all ord rs = Inl e \<Longrightarrow> Inl e \<in> set rs"
proof -
  assume a: "promise_all ord rs = Inl e"
  let ?ls = "lefts (map (\<lambda>i. rs ! i) (filter (\<lambda>i. i < length rs) ord) @ rs)"
  from a obtain tl where "?ls = e # tl"
    by (auto simp: promise_all_def split: list.splits)
  then have "e \<in> set ?ls" by simp
  then have "e \<in> set (lefts rs)"
    using lefts_nth_filter [of rs ord] by (auto simp: lefts_append)
  then show ?thesis by (simp add: lefts_mem)
qed

lemma promise_all_rejects:
  assumes "Inl e \<in> set rs"
  shows "\<exists>e'. promise_all ord rs = Inl e' \<and> Inl e' \<in> set rs"
proof -
  from assms have "lefts rs \<noteq> []" using lefts_mem [of e rs] by auto
  then have "lefts (map (\<lambda>i. rs ! i) (filter (\<lambda>i. i < length rs) ord) @ rs) \<noteq> []"
    by (simp add: lefts_append)
  then have "\<exists>e'. promise_all ord rs = Inl e'"
    by (cases "lefts (map (\<lambda>i. rs ! i) (filter (\<lambda>i. i < length rs) ord) @ rs)")
      (simp_all add: promise_all_def)
  then show ?thesis using promise_all_Inl by blast
qed

lemma promise_all_rejects_only:
  assumes "lefts rs1 = []" and "lefts rs2 = []"
  shows "promise_all ord (rs1 @ Inl e # rs2) = Inl e"
proof -
  obtain e' where e': "promise_all ord (rs1 @ Inl e # rs2) = Inl e'"
      "Inl e' \<in> set (rs1 @ Inl e # rs2)"
    using promise_all_rejects [of e "rs1 @ Inl e # rs2" ord] by auto
  from e'(2) have "e' \<in> set (lefts (rs1 @ Inl e # rs2))" by (simp only: lefts_mem)
  with assms have "e' = e" by (simp add: lefts_append)
  with e' show ?thesis by simp
qed

lemma deserializeKey_valid:
  "k \<noteq> [] \<Longrightarrow> \<not> startsWith k DELIMITER \<Longrightarrow> \<exists>key. deserializeKey k cfg = Inr key"
  by (simp add: deserializeKey_def Let_def)

lemma build_Item_valid:
  "k \<noteq> [] \<Longrightarrow> \<not> startsWith k DELIMITER \<Longrightarrow> \<exists>it. build_Item k d cfg now = Inr it"
  by (simp add: build_Item_def deserializeKey_def Let_def)

lemma mget_chunk_sends:
  assumes "list_all (\<lambda>k. k \<noteq> [] \<and> \<not> startsWith k DELIMITER) c"
  shows "\<exists>r st' cmd. mget_chunk cfg P now c (st, log) = (r, (st', log @ [cmd]))
           \<and> read_size cmd = length c"
proof -
  have "\<exists>ys. try_map (\<lambda>key. deserializeKey key cfg) c = Inr ys \<and> length ys = length c"
    using assms by (intro try_map_total deserializeKey_valid) (auto simp: list_all_iff)
  then obtain ys where ys: "try_map (\<lambda>key. deserializeKey key cfg) c = Inr ys" "length ys = length c"
    by blast
  let ?inp = "empty_input\<lparr>RequestItems := Some [(cfg_table cfg, Keys ys)]\<rparr>"
  have b: "buildMGetInput c cfg = Inr ?inp" by (simp add: buildMGetInput_def ys)
  have sz: "read_size (BatchGetItemCommand ?inp) = length c"
    by (simp add: read_size_def request_count_def ys)
  obtain r st' where p: "P (BatchGetItemCommand ?inp) st = (r, st')" by (cases "P (BatchGetItemCommand ?inp) st")
  then have "\<exists>r'. mget_chunk cfg P now c (st, log) = (r', (st', log @ [BatchGetItemCommand ?inp]))"
    by (cases r) (simp_all add: mget_chunk_def b send_def)
  with sz show ?thesis by blast
qed

lemma mset_chunk_sends:
  assumes "list_all (\<lambda>kd. fst kd \<noteq> [] \<and> \<not> startsWith (fst kd) DELIMITER
                        \<and> \<not> isl (marshall_data cfg (snd kd))) c"
  shows "\<exists>r st' cmd. mset_chunk cfg P now t c (st, log) = (r, (st', log @ [cmd]))
           \<and> write_size cmd = length c"
proof -
  let ?f = "\<lambda>kd. case marshall_data cfg (snd kd) of Inl e \<Rightarrow> Inl e | Inr m \<Rightarrow> Inr (fst kd, m)"
  have "\<exists>ms. try_map ?f c = Inr ms \<and> length ms = length c"
  proof (rule try_map_total)
    fix x assume "x \<in> set c"
    with assms have "\<not> isl (marshall_data cfg (snd x))" by (auto simp: list_all_iff)
    then show "\<exists>y. ?f x = Inr y" by (cases "marshall_data cfg (snd x)") simp_all
  qed
  then obtain ms where ms: "try_map ?f c = Inr ms" "length ms = length c" by blast
  have keys: "fst kd \<noteq> [] \<and> \<not> startsWith (fst kd) DELIMITER" if "kd \<in> set ms" for kd
  proof -
    have "map fst ms = map fst c" using ms(1) by (rule try_map_keeps_keys)
    then have "fst ` set ms = fst ` set c" by (metis set_map)
    with that have "fst kd \<in> fst ` set c" by blast
    with assms show ?thesis by (auto simp: list_all_iff)
  qed
  let ?g = "\<lambda>kd. case build_Item (fst kd) (snd kd) (with_ttl cfg t) now of
                   Inl e \<Rightarrow> Inl e | Inr it \<Rightarrow> Inr (PutRequest it)"
  have "\<exists>rs. try_map ?g ms = Inr rs \<and> length rs = length ms"
  proof (rule try_map_total)
    fix x assume "x \<in> set ms"
    then obtain it where "build_Item (fst x) (snd x) (with_ttl cfg t) now = Inr it"
      using keys build_Item_valid by blast
    then show "\<exists>y. ?g x = Inr y" by simp
  qed
  then obtain rs where rs: "try_map ?g ms = Inr rs" "length rs = length ms" by blast
  let ?inp = "empty_input\<lparr>RequestItems := Some [(cfg_table (with_ttl cfg t), Requests rs)],
                 NoneOptions := [''ReturnValue'', ''ReturnConsumedCapacity'',
                                 ''ReturnItemCollectionMetrics'']\<rparr>"
  have b: "buildMSetInput ms (with_ttl cfg t) now = Inr ?inp" by (simp add: buildMSetInput_def rs)
  have sz: "write_size (BatchWriteItemCommand ?inp) = length c"
    by (simp add: write_size_def request_count_def rs ms)
  obtain r st' where p: "P (BatchWriteItemCommand ?inp) st = (r, st')"
    by (cases "P (BatchWriteItemCommand ?inp) st")
  then have "mset_chunk cfg P now t c (st, log) = (r, (st', log @ [BatchWriteItemCommand ?inp]))"
    by (simp add: mset_chunk_def ms b send_def)
  with sz show ?thesis by blast
qed

lemma mdel_chunks_log:
  assumes "\<And>c. c \<in> set cs \<Longrightarrow> list_all (\<lambda>k. k \<noteq> [] \<and> \<not> startsWith k DELIMITER) c"
  shows "\<exists>rs st' log'. mdel_chunks cfg P cs (st, log) = (Inr rs, (st', log'))
           \<and> map write_size log' = map write_size log @ map length cs"
  using assms
proof (induction cs arbitrary: st log)
  case Nil
  then show ?case by simp
next
  case (Cons c cs)
  let ?f = "\<lambda>key. case deserializeKey key cfg of Inl e \<Rightarrow> Inl e | Inr k \<Rightarrow> Inr (DeleteRequest k)"
  have "\<exists>ys. try_map ?f c = Inr ys \<and> length ys = length c"
  proof (rule try_map_total)
    fix x assume "x \<in> set c"
    with Cons.prems [of c] have "x \<noteq> [] \<and> \<not> startsWith x DELIMITER"
      by (auto simp: list_all_iff)
    then obtain key where "deserializeKey x cfg = Inr key"
      using deserializeKey_valid [of x cfg] by blast
    then show "\<exists>y. ?f x = Inr y" by simp
  qed
  then obtain ys where ys: "try_map ?f c = Inr ys" "length ys = length c" by blast
  let ?inp = "empty_input\<lparr>RequestItems := Some [(cfg_table cfg, Requests ys)]\<rparr>"
  have b: "buildMDelInput c cfg = Inr ?inp" by (simp add: buildMDelInput_def ys)
  have sz: "write_size (BatchWriteItemCommand ?inp) = length c"
    by (simp add: write_size_def request_count_def ys)
  obtain r st1 where p: "P (BatchWriteItemCommand ?inp) st = (r, st1)"
    by (cases "P (BatchWriteItemCommand ?inp) st")
  from Cons.IH [of st1 "log @ [BatchWriteItemCommand ?inp]"] Cons.prems obtain rs st' log'
    where r: "mdel_chunks cfg P cs (st1, log @ [BatchWriteItemCommand ?inp]) = (Inr rs, (st', log'))"
      "map write_size log' = map write_size (log @ [BatchWriteItemCommand ?inp]) @ map length cs"
    by auto
  from b p r sz show ?case by (simp add: send_def)
qed

lemma mget_chunk_provider_error:
  assumes "buildMGetInput ks cfg = Inr inp" and "P (BatchGetItemCommand inp) st = (Inl e, st')"
  shows "mget_chunk cfg P now ks (st, log) = (Inl e, (st', log @ [BatchGetItemCommand inp]))"
  using assms by (simp add: mget_chunk_def send_def)

lemma mset_chunk_provider_error:
  assumes "try_map (\<lambda>kd. case marshall_data cfg (snd kd) of Inl e \<Rightarrow> Inl e | Inr m \<Rightarrow> Inr (fst kd, m)) vs = Inr ms"
    and "buildMSetInput ms (with_ttl cfg t) now = Inr inp"
    and "P (BatchWriteItemCommand inp) st = (Inl e, st')"
  shows "mset_chunk cfg P now t vs (st, log) = (Inl e, (st', log @ [BatchWriteItemCommand inp]))"
  using assms by (simp add: mset_chunk_def send_def)

lemma backOff_no_retry:
  assumes "request w = (Inl e, w')" and "\<not> retry e"
  shows "backOff retry (Suc n) request w = (Inl e, w')"
  using assms by simp

lemma backOff_exhausts:
  assumes "\<And>w. request w = (Inl e, g w)" and "retry e"
  shows "backOff retry (Suc n) request w = (Inl e, (g ^^ Suc n) w)"
proof (induction n arbitrary: w)
  case 0
  show ?case using assms by simp
next
  case (Suc n)
  have "backOff retry (Suc (Suc n)) request w = backOff retry (Suc n) request (g w)"
    using assms by simp
  also have "\<dots> = (Inl e, (g ^^ Suc n) (g w))" by (rule Suc.IH)
  finally show ?case by (simp add: funpow_swap1)
qed

text \<open>
  Claim C6. If the provider raises an exception \<open>e\<close> on the command of a chunk, that chunk
  has sent exactly this one command and is rejected with \<open>e\<close>; the batch operation is
  rejected with the exception of one of its rejected chunks, and with \<open>e\<close> itself when no
  other chunk is rejected, whatever the order in which the chunks settle. The backoff helper
  likewise calls a request once and throws its exception when that is not an
  \<open>UnprocessedDataException\<close>.
\<close>

theorem provider_error_propagates:
  "(chunk args 100 = pre @ c # post
      \<and> map_chunks (mget_chunk cfg P now) pre w = (rpre, (st, log))
      \<and> buildMGetInput c cfg = Inr inp
      \<and> P (BatchGetItemCommand inp) st = (Inl e, st')
      \<and> map_chunks (mget_chunk cfg P now) post (st', log @ [BatchGetItemCommand inp]) = (rpost, w')
    \<longrightarrow> mget_chunk cfg P now c (st, log) = (Inl e, (st', log @ [BatchGetItemCommand inp]))
        \<and> (\<exists>e'. mget cfg P now ord args w = (Inl e', w') \<and> Inl e' \<in> set (rpre @ Inl e # rpost))
        \<and> (lefts rpre = [] \<and> lefts rpost = [] \<longrightarrow> mget cfg P now ord args w = (Inl e, w')))
   \<and> (chunk entries 25 = vpre @ v # vpost
      \<and> map_chunks (mset_chunk cfg P now t) vpre w = (spre, (st, log))
      \<and> try_map (\<lambda>kd. case marshall_data cfg (snd kd) of Inl e \<Rightarrow> Inl e | Inr m \<Rightarrow> Inr (fst kd, m)) v = Inr ms
      \<and> buildMSetInput ms (with_ttl cfg t) now = Inr inp
      \<and> P (BatchWriteItemCommand inp) st = (Inl e, st')
      \<and> map_chunks (mset_chunk cfg P now t) vpost (st', log @ [BatchWriteItemCommand inp]) = (spost, w')
    \<longrightarrow> mset_chunk cfg P now t v (st, log) = (Inl e, (st', log @ [BatchWriteItemCommand inp]))
        \<and> (\<exists>e'. mset cfg P now ord entries t w = (Inl e', w') \<and> Inl e' \<in> set (spre @ Inl e # spost))
        \<and> (lefts spre = [] \<and> lefts spost = [] \<longrightarrow> mset cfg P now ord entries t w = (Inl e, w')))
   \<and> (chunk args 25 = pre @ c # post
      \<and> mdel_chunks cfg P pre w = (Inr dpre, (st, log))
      \<and> buildMDelInput c cfg = Inr inp
      \<and> P (BatchWriteItemCommand inp) st = (Inl e, st')
      \<and> mdel_chunks cfg P post (st', log @ [BatchWriteItemCommand inp]) = (Inr dpost, w')
    \<longrightarrow> mdel_chunks cfg P [c] (st, log) = (Inr [Inl e], (st', log @ [BatchWriteItemCommand inp]))
        \<and> (\<exists>e'. mdel cfg P ord args w = (Inl e', w') \<and> Inl e' \<in> set (dpre @ Inl e # dpost))
        \<and> (lefts dpre = [] \<and> lefts dpost = [] \<longrightarrow> mdel cfg P ord args w = (Inl e, w')))
   \<and> (request u = (Inl e, u') \<and> e \<noteq> UnprocessedDataException
    \<longrightarrow> backoff request numOfAttempts u = (Inl e, u'))"
proof -
  have g: "mget_chunk cfg P now c (st, log) = (Inl e, (st', log @ [BatchGetItemCommand inp]))
        \<and> (\<exists>e'. mget cfg P now ord args w = (Inl e', w') \<and> Inl e' \<in> set (rpre @ Inl e # rpost))
        \<and> (lefts rpre = [] \<and> lefts rpost = [] \<longrightarrow> mget cfg P now ord args w = (Inl e, w'))"
    if a: "chunk args 100 = pre @ c # post"
      "map_chunks (mget_chunk cfg P now) pre w = (rpre, (st, log))"
      "buildMGetInput c cfg = Inr inp"
      "P (BatchGetItemCommand inp) st = (Inl e, st')"
      "map_chunks (mget_chunk cfg P now) post (st', log @ [BatchGetItemCommand inp]) = (rpost, w')"
  proof -
    have c: "mget_chunk cfg P now c (st, log) = (Inl e, (st', log @ [BatchGetItemCommand inp]))"
      using a(3,4) by (rule mget_chunk_provider_error)
    have m: "map_chunks (mget_chunk cfg P now) (chunk args 100) w = (rpre @ Inl e # rpost, w')"
      unfolding a(1) using a(2) c a(5) by (rule map_chunks_reject)
    obtain e' where e': "promise_all ord (rpre @ Inl e # rpost) = Inl e'"
        "Inl e' \<in> set (rpre @ Inl e # rpost)"
      using promise_all_rejects [of e "rpre @ Inl e # rpost" ord] by auto
    have "mget cfg P now ord args w = (Inl e', w')"
      by (simp add: mget_def m e'(1))
    moreover have "mget cfg P now ord args w = (Inl e, w')" if "lefts rpre = []" "lefts rpost = []"
      by (simp add: mget_def m promise_all_rejects_only [OF that])
    ultimately show ?thesis using c e'(2) by blast
  qed
  have s: "mset_chunk cfg P now t v (st, log) = (Inl e, (st', log @ [BatchWriteItemCommand inp]))
        \<and> (\<exists>e'. mset cfg P now ord entries t w = (Inl e', w') \<and> Inl e' \<in> set (spre @ Inl e # spost))
        \<and> (lefts spre = [] \<and> lefts spost = [] \<longrightarrow> mset cfg P now ord entries t w = (Inl e, w'))"
    if a: "chunk entries 25 = vpre @ v # vpost"
      "map_chunks (mset_chunk cfg P now t) vpre w = (spre, (st, log))"
      "try_map (\<lambda>kd. case marshall_data cfg (snd kd) of Inl e \<Rightarrow> Inl e | Inr m \<Rightarrow> Inr (fst kd, m)) v = Inr ms"
      "buildMSetInput ms (with_ttl cfg t) now = Inr inp"
      "P (BatchWriteItemCommand inp) st = (Inl e, st')"
      "map_chunks (mset_chunk cfg P now t) vpost (st', log @ [BatchWriteItemCommand inp]) = (spost, w')"
  proof -
    have c: "mset_chunk cfg P now t v (st, log) = (Inl e, (st', log @ [BatchWriteItemCommand inp]))"
      using a(3,4,5) by (rule mset_chunk_provider_error)
    have m: "map_chunks (mset_chunk cfg P now t) (chunk entries 25) w = (spre @ Inl e # spost, w')"
      unfolding a(1) using a(2) c a(6) by (rule map_chunks_reject)
    obtain e' where e': "promise_all ord (spre @ Inl e # spost) = Inl e'"
        "Inl e' \<in> set (spre @ Inl e # spost)"
      using promise_all_rejects [of e "spre @ Inl e # spost" ord] by auto
    have "mset cfg P now ord entries t w = (Inl e', w')"
      by (simp add: mset_def m e'(1))
    moreover have "mset cfg P now ord entries t w = (Inl e, w')" if "lefts spre = []" "lefts spost = []"
      by (simp add: mset_def m promise_all_rejects_only [OF that])
    ultimately show ?thesis using c e'(2) by blast
  qed
  have d: "mdel_chunks cfg P [c] (st, log) = (Inr [Inl e], (st', log @ [BatchWriteItemCommand inp]))
        \<and> (\<exists>e'. mdel cfg P ord args w = (Inl e', w') \<and> Inl e' \<in> set (dpre @ Inl e # dpost))
        \<and> (lefts dpre = [] \<and> lefts dpost = [] \<longrightarrow> mdel cfg P ord args w = (Inl e, w'))"
    if a: "chunk args 25 = pre @ c # post"
      "mdel_chunks cfg P pre w = (Inr dpre, (st, log))"
      "buildMDelInput c cfg = Inr inp"
      "P (BatchWriteItemCommand inp) st = (Inl e, st')"
      "mdel_chunks cfg P post (st', log @ [BatchWriteItemCommand inp]) = (Inr dpost, w')"
  proof -
    have c: "mdel_chunks cfg P [c] (st, log) = (Inr [Inl e], (st', log @ [BatchWriteItemCommand inp]))"
      using a(3,4) by (simp add: send_def)
    have "mdel_chunks cfg P (c # post) (st, log) = (Inr (Inl e # dpost), w')"
      using a(3,4,5) by (simp add: send_def)
    then have m: "mdel_chunks cfg P (chunk args 25) w = (Inr (dpre @ Inl e # dpost), w')"
      unfolding a(1) using a(2) by (simp add: mdel_chunks_append)
    obtain e' where e': "promise_all ord (dpre @ Inl e # dpost) = Inl e'"
        "Inl e' \<in> set (dpre @ Inl e # dpost)"
      using promise_all_rejects [of e "dpre @ Inl e # dpost" ord] by auto
    have "mdel cfg P ord args w = (Inl e', w')"
      by (simp add: mdel_def m e'(1))
    moreover have "mdel cfg P ord args w = (Inl e, w')" if "lefts dpre = []" "lefts dpost = []"
      by (simp add: mdel_def m promise_all_rejects_only [OF that])
    ultimately show ?thesis using c e'(2) by blast
  qed
  have b: "backoff request numOfAttempts u = (Inl e, u')"
    if "request u = (Inl e, u')" "e \<noteq> UnprocessedDataException"
  proof -
    have "0 < (case numOfAttempts of None \<Rightarrow> 10 | Some n \<Rightarrow> max 1 n)"
      by (cases numOfAttempts) simp_all
    then obtain n where "(case numOfAttempts of None \<Rightarrow> 10 | Some n \<Rightarrow> max 1 n) = Suc n"
      using gr0_implies_Suc by blast
    then show ?thesis using that by (simp add: backoff_def)
  qed
  from g s d b show ?thesis by blast
qed

theorem provider_error_propagates_witness:
  "fst (mget test_config (failing (Error ''DDB Exception'')) 0 [] [''123+aaa'', ''123+bbb'', ''123+ccc''] ((), []))
     = Inl (Error ''DDB Exception'')
   \<and> length (snd (snd (mget test_config (failing (Error ''DDB Exception'')) 0 []
                           [''123+aaa'', ''123+bbb'', ''123+ccc''] ((), [])))) = 1
   \<and> fst (mset test_config (failing (Error ''DDB Exception'')) 0 [] [(''123+aaa'', Num ''100'')] None ((), []))
     = Inl (Error ''DDB Exception'')
   \<and> length (snd (snd (mset test_config (failing (Error ''DDB Exception'')) 0 []
                           [(''123+aaa'', Num ''100'')] None ((), [])))) = 1
   \<and> fst (mdel test_config (failing (Error ''DDB Exception'')) [] [''123+aaa'', ''123+bbb'', ''123+ccc''] ((), []))
     = Inl (Error ''DDB Exception'')
   \<and> length (snd (snd (mdel test_config (failing (Error ''DDB Exception'')) []
                           [''123+aaa'', ''123+bbb'', ''123+ccc''] ((), [])))) = 1
   \<and> backoff (\<lambda>n. (Inl (Error ''Not an UnprocessedDataException'') :: error + unit, Suc n)) (Some 3) (0::nat)
     = (Inl (Error ''Not an UnprocessedDataException''), 1)"
proof -
  let ?ks = "[''123+aaa'', ''123+bbb'', ''123+ccc'']"
  let ?es = "[(''123+aaa'', Num ''100'')]"
  let ?ms = "[(''123+aaa'', [(''data'', N ''100''), (''CreatedAt'', N ''1701732465'')])]"
  let ?e = "Error ''DDB Exception''"
  let ?P = "failing ?e"
  have p: "?P c () = (Inl ?e, ())" for c by (simp add: failing_def)
  obtain gi where gi: "buildMGetInput ?ks test_config = Inr gi"
    by (simp add: eval_defs)
  obtain si where si: "buildMSetInput ?ms (with_ttl test_config None) 0 = Inr si"
    by (simp add: eval_defs)
  obtain di where di: "buildMDelInput ?ks test_config = Inr di"
    by (simp add: eval_defs)
  have ms: "try_map (\<lambda>kd. case marshall_data test_config (snd kd) of Inl e \<Rightarrow> Inl e | Inr m \<Rightarrow> Inr (fst kd, m)) ?es = Inr ?ms"
    by (simp add: eval_defs)
  note t = provider_error_propagates [where args = ?ks and pre = "[]" and c = ?ks and post = "[]"
      and cfg = test_config and P = ?P and now = 0 and w = "((), [])" and rpre = "[]" and st = "()"
      and log = "[]" and inp = gi and e = ?e and st' = "()" and rpost = "[]"
      and w' = "((), [BatchGetItemCommand gi])" and ord = "[]"]
  have g: "mget test_config ?P 0 [] ?ks ((), []) = (Inl ?e, ((), [BatchGetItemCommand gi]))"
    using conjunct1 [OF t] gi p by (simp add: chunk_single)
  note t = provider_error_propagates [where entries = ?es and vpre = "[]" and v = ?es and vpost = "[]"
      and cfg = test_config and P = ?P and now = 0 and w = "((), [])" and spre = "[]" and st = "()"
      and log = "[]" and inp = si and e = ?e and st' = "()" and spost = "[]" and t = None and ms = ?ms
      and w' = "((), [BatchWriteItemCommand si])" and ord = "[]"]
  have s: "mset test_config ?P 0 [] ?es None ((), []) = (Inl ?e, ((), [BatchWriteItemCommand si]))"
    using conjunct1 [OF conjunct2 [OF t]] si ms p by (simp add: chunk_single)
  note t = provider_error_propagates [where args = ?ks and pre = "[]" and c = ?ks and post = "[]"
      and cfg = test_config and P = ?P and w = "((), [])" and dpre = "[]" and st = "()"
      and log = "[]" and inp = di and e = ?e and st' = "()" and dpost = "[]"
      and w' = "((), [BatchWriteItemCommand di])" and ord = "[]"]
  have d: "mdel test_config ?P [] ?ks ((), []) = (Inl ?e, ((), [BatchWriteItemCommand di]))"
    using conjunct1 [OF conjunct2 [OF conjunct2 [OF t]]] di p by (simp add: chunk_single)
  note t = provider_error_propagates [where request = "\<lambda>n. (Inl (Error ''Not an UnprocessedDataException'') :: error + unit, Suc n)"
      and u = "0::nat" and u' = "1::nat" and e = "Error ''Not an UnprocessedDataException''"
      and numOfAttempts = "Some 3"]
  have b: "backoff (\<lambda>n. (Inl (Error ''Not an UnprocessedDataException'') :: error + unit, Suc n)) (Some 3) (0::nat)
     = (Inl (Error ''Not an UnprocessedDataException''), 1)"
    using conjunct2 [OF conjunct2 [OF conjunct2 [OF t]]] by simp
  from g s d b show ?thesis by simp
qed

text \<open>
  Claim C7. For keys that \<open>deserializeKey\<close> accepts and payloads that \<open>marshall\<close> accepts,
  \<open>mget\<close> sends one batch read for each chunk of at most 100 keys, and \<open>mset\<close> and
  \<open>mdel\<close> one batch write for each chunk of at most 25 items, in order and of the chunk's
  size, whatever the provider answers; the chunks are not empty and together are the input. So 150 keys make two reads of 100 and
  50 keys, and 30 items two writes of 25 and 5.
\<close>

theorem batches_are_chunked:
  assumes "list_all (\<lambda>k. k \<noteq> [] \<and> \<not> startsWith k DELIMITER) ks"
    and "list_all (\<lambda>kd. fst kd \<noteq> [] \<and> \<not> startsWith (fst kd) DELIMITER
                         \<and> \<not> isl (marshall_data cfg (snd kd))) es"
  shows "map read_size (snd (snd (mget cfg P now ord ks (st, [])))) = map length (chunk ks 100)
    \<and> map write_size (snd (snd (mset cfg P now ord es t (st, [])))) = map length (chunk es 25)
    \<and> map write_size (snd (snd (mdel cfg P ord ks (st, [])))) = map length (chunk ks 25)
    \<and> list_all (\<lambda>c. c \<noteq> [] \<and> length c \<le> 100) (chunk ks 100) \<and> concat (chunk ks 100) = ks
    \<and> list_all (\<lambda>c. c \<noteq> [] \<and> length c \<le> 25) (chunk es 25) \<and> concat (chunk es 25) = es
    \<and> list_all (\<lambda>c. c \<noteq> [] \<and> length c \<le> 25) (chunk ks 25) \<and> concat (chunk ks 25) = ks
    \<and> (length ks = 150 \<longrightarrow> map length (chunk ks 100) = [100, 50])
    \<and> (length es = 30 \<longrightarrow> map length (chunk es 25) = [25, 5])
    \<and> (length ks = 30 \<longrightarrow> map length (chunk ks 25) = [25, 5])"
proof -
  have g: "map read_size (snd (snd (mget cfg P now ord ks (st, [])))) = map length (chunk ks 100)"
  proof -
    have "\<exists>rs st' log'. map_chunks (mget_chunk cfg P now) (chunk ks 100) (st, []) = (rs, (st', log'))
           \<and> map read_size log' = map read_size [] @ map length (chunk ks 100)"
    proof (rule map_chunks_log)
      fix c st log assume "c \<in> set (chunk ks 100)"
      then have "set c \<subseteq> set ks" by (rule chunk_subset)
      with assms(1) have "list_all (\<lambda>k. k \<noteq> [] \<and> \<not> startsWith k DELIMITER) c"
        by (auto simp: list_all_iff)
      then show "\<exists>r st' cmd. mget_chunk cfg P now c (st, log) = (r, (st', log @ [cmd]))
           \<and> read_size cmd = length c" by (rule mget_chunk_sends)
    qed
    then obtain rs st' log' where
      "map_chunks (mget_chunk cfg P now) (chunk ks 100) (st, []) = (rs, (st', log'))"
      "map read_size log' = map length (chunk ks 100)" by auto
    then show ?thesis by (cases "promise_all ord rs") (simp_all add: mget_def)
  qed
  have s: "map write_size (snd (snd (mset cfg P now ord es t (st, [])))) = map length (chunk es 25)"
  proof -
    have "\<exists>rs st' log'. map_chunks (mset_chunk cfg P now t) (chunk es 25) (st, []) = (rs, (st', log'))
           \<and> map write_size log' = map write_size [] @ map length (chunk es 25)"
    proof (rule map_chunks_log)
      fix c st log assume "c \<in> set (chunk es 25)"
      then have "set c \<subseteq> set es" by (rule chunk_subset)
      with assms(2) have "list_all (\<lambda>kd. fst kd \<noteq> [] \<and> \<not> startsWith (fst kd) DELIMITER
                         \<and> \<not> isl (marshall_data cfg (snd kd))) c"
        by (auto simp: list_all_iff)
      then show "\<exists>r st' cmd. mset_chunk cfg P now t c (st, log) = (r, (st', log @ [cmd]))
           \<and> write_size cmd = length c" by (rule mset_chunk_sends)
    qed
    then obtain rs st' log' where
      "map_chunks (mset_chunk cfg P now t) (chunk es 25) (st, []) = (rs, (st', log'))"
      "map write_size log' = map length (chunk es 25)" by auto
    then show ?thesis by (cases "promise_all ord rs") (simp_all add: mset_def)
  qed
  have d: "map write_size (snd (snd (mdel cfg P ord ks (st, [])))) = map length (chunk ks 25)"
  proof -
    have "\<exists>rs st' log'. mdel_chunks cfg P (chunk ks 25) (st, []) = (Inr rs, (st', log'))
           \<and> map write_size log' = map write_size [] @ map length (chunk ks 25)"
    proof (rule mdel_chunks_log)
      fix c assume "c \<in> set (chunk ks 25)"
      then have "set c \<subseteq> set ks" by (rule chunk_subset)
      with assms(1) show "list_all (\<lambda>k. k \<noteq> [] \<and> \<not> startsWith k DELIMITER) c"
        by (auto simp: list_all_iff)
    qed
    then obtain rs st' log' where
      "mdel_chunks cfg P (chunk ks 25) (st, []) = (Inr rs, (st', log'))"
      "map write_size log' = map length (chunk ks 25)" by auto
    then show ?thesis by (cases "promise_all ord rs") (simp_all add: mdel_def)
  qed
  have two: "length ks = 150 \<longrightarrow> map length (chunk ks 100) = [100, 50]"
    "length es = 30 \<longrightarrow> map length (chunk es 25) = [25, 5]"
    "length ks = 30 \<longrightarrow> map length (chunk ks 25) = [25, 5]"
    by (auto simp: chunk_two)
  from g s d two show ?thesis
    by (simp add: chunk_parts concat_chunk)
qed

theorem batches_are_chunked_witness:
  "map read_size (snd (snd (mget test_config throttled 0 [] (replicate 150 ''k'') ((), [])))) = [100, 50]
   \<and> map write_size (snd (snd (mset test_config throttled 0 [] (replicate 30 (''k'', Null)) None ((), [])))) = [25, 5]
   \<and> map write_size (snd (snd (mdel test_config throttled [] (replicate 30 ''k'') ((), [])))) = [25, 5]"
proof -
  have k: "list_all (\<lambda>k. k \<noteq> [] \<and> \<not> startsWith k DELIMITER) (replicate n ''k'')" for n
    by (simp add: list_all_iff startsWith_def DELIMITER_def)
  have e: "list_all (\<lambda>kd. fst kd \<noteq> [] \<and> \<not> startsWith (fst kd) DELIMITER
                         \<and> \<not> isl (marshall_data test_config (snd kd))) (replicate n (''k'', Null))" for n
    by (simp add: list_all_iff startsWith_def DELIMITER_def marshall_data_def marshall_def
        assign_def convertToAttr_def test_config_def)
  note a = batches_are_chunked [OF k [of 150] e [of 30], of throttled 0 "[]" "()" None]
  note b = batches_are_chunked [OF k [of 30] e [of 30], of throttled 0 "[]" "()" None]
  from a have "map read_size (snd (snd (mget test_config throttled 0 [] (replicate 150 ''k'') ((), [])))) = [100, 50]"
    by simp
  moreover from a have "map write_size (snd (snd (mset test_config throttled 0 [] (replicate 30 (''k'', Null)) None ((), [])))) = [25, 5]"
    by simp
  moreover from b have "map write_size (snd (snd (mdel test_config throttled [] (replicate 30 ''k'') ((), [])))) = [25, 5]"
    by simp
  ultimately show ?thesis by simp
qed

section \<open>Responses that report unprocessed items\<close>

text \<open>
  The backoff helper, given a request that always fails with an
  \<open>UnprocessedDataException\<close>, calls it ten times and throws that exception.
\<close>

lemma backoff_exhausts:
  assumes "\<And>w. request w = (Inl UnprocessedDataException, g w)"
  shows "backoff request None w = (Inl UnprocessedDataException, (g ^^ 10) w)"
proof -
  have "backOff (\<lambda>err. err = UnprocessedDataException) (Suc 9) request w
          = (Inl UnprocessedDataException, (g ^^ Suc 9) w)"
    by (rule backOff_exhausts) (simp_all add: assms)
  then show ?thesis by (simp add: backoff_def)
qed

text \<open>
  The batch operations of the store raise an \<open>UnprocessedDataException\<close> only if the
  provider itself raises one: nothing in them turns an unprocessed subset into an error.
\<close>

lemma deserializeKey_not_unprocessed: "deserializeKey k cfg \<noteq> Inl UnprocessedDataException"
  by (simp add: deserializeKey_def unsupported_key_def Let_def)

lemma try_map_not_unprocessed:
  assumes "\<And>x. f x \<noteq> Inl UnprocessedDataException"
  shows "try_map f xs \<noteq> Inl UnprocessedDataException"
  using assms by (induction xs) (auto split: sum.splits)

lemma convert_props_not_unprocessed:
  assumes "\<And>x. f x \<noteq> Inl UnprocessedDataException"
  shows "convert_props f xs \<noteq> Inl UnprocessedDataException"
  using assms by (induction xs) (auto split: sum.splits)

lemma marshall_data_not_unprocessed: "marshall_data cfg d \<noteq> Inl UnprocessedDataException"
  unfolding marshall_data_def marshall_def
  by (rule convert_props_not_unprocessed) (simp add: convertToAttr_def split: jsval.split)

lemma build_Item_not_unprocessed: "build_Item k d cfg now \<noteq> Inl UnprocessedDataException"
  using deserializeKey_not_unprocessed [of k cfg]
  by (auto simp: build_Item_def split: sum.split)

lemma read_item_not_unprocessed: "read_item cfg now raw \<noteq> Inl UnprocessedDataException"
proof -
  have "unmarshall raw \<noteq> Inl UnprocessedDataException"
    unfolding unmarshall_def
    by (rule convert_props_not_unprocessed)
      (simp add: convertToNative_def split: attr.split option.split)
  moreover have "isExpired obj cfg now \<noteq> Inl UnprocessedDataException" for obj
    by (simp add: isExpired_def get_member_def split: jsval.split)
  ultimately show ?thesis by (auto simp: read_item_def split: sum.split)
qed

lemma index_items_not_unprocessed: "index_items cfg items acc \<noteq> Inl UnprocessedDataException"
proof (induction items arbitrary: acc)
  case Nil
  then show ?case by simp
next
  case (Cons item items)
  have "serializeKey item cfg \<noteq> Inl UnprocessedDataException"
    by (simp add: serializeKey_def split: option.split)
  with Cons show ?case by (auto split: sum.split)
qed

lemma mget_collect_not_unprocessed:
  "mget_collect cfg now ks response \<noteq> Inl UnprocessedDataException"
proof -
  have "try_map (\<lambda>key. case map_of m key of None \<Rightarrow> Inr Undefined | Some raw \<Rightarrow> read_item cfg now raw) ks
          \<noteq> Inl UnprocessedDataException" for m :: "(string \<times> item) list"
    by (rule try_map_not_unprocessed) (simp add: read_item_not_unprocessed split: option.split)
  then show ?thesis
    using index_items_not_unprocessed
    by (auto simp: mget_collect_def Let_def split: sum.split)
qed

lemma send_not_unprocessed:
  assumes "\<And>c st. fst (P c st) \<noteq> Inl UnprocessedDataException"
  shows "fst (send P c w) \<noteq> Inl UnprocessedDataException"
  using assms [of c "fst w"] by (auto simp: send_def split: prod.split)

lemma store_never_raises_unprocessed:
  assumes "\<And>c st. fst (P c st) \<noteq> Inl UnprocessedDataException"
  shows "fst (mget cfg P now ord ks w) \<noteq> Inl UnprocessedDataException"
    and "fst (mset cfg P now ord es t w) \<noteq> Inl UnprocessedDataException"
    and "fst (mdel cfg P ord ks w) \<noteq> Inl UnprocessedDataException"
proof -
  note s = send_not_unprocessed [of P, OF assms]
  have g: "fst (mget_chunk cfg P now c w) \<noteq> Inl UnprocessedDataException" for c w
  proof -
    have "buildMGetInput c cfg \<noteq> Inl UnprocessedDataException"
      using try_map_not_unprocessed [of "\<lambda>key. deserializeKey key cfg" c]
      by (auto simp: buildMGetInput_def deserializeKey_not_unprocessed split: sum.split)
    moreover have "fst (case send P (BatchGetItemCommand inp) w of
                   (Inl e, w') \<Rightarrow> (Inl e, w')
                 | (Inr response, w') \<Rightarrow> (mget_collect cfg now c response, w'))
             \<noteq> Inl UnprocessedDataException" for inp
    proof -
      obtain r w1 where r: "send P (BatchGetItemCommand inp) w = (r, w1)"
        by (cases "send P (BatchGetItemCommand inp) w")
      with s [of "BatchGetItemCommand inp" w] have "r \<noteq> Inl UnprocessedDataException" by simp
      with r mget_collect_not_unprocessed show ?thesis by (auto split: sum.split)
    qed
    ultimately show ?thesis
      by (auto simp: mget_chunk_def split: sum.split)
  qed
  show "fst (mget cfg P now ord ks w) \<noteq> Inl UnprocessedDataException"
  proof
    assume a: "fst (mget cfg P now ord ks w) = Inl UnprocessedDataException"
    obtain rs w' where m: "map_chunks (mget_chunk cfg P now) (chunk ks 100) w = (rs, w')"
      by (cases "map_chunks (mget_chunk cfg P now) (chunk ks 100) w")
    with a have "promise_all ord rs = Inl UnprocessedDataException"
      by (simp add: mget_def split: sum.splits)
    then have "Inl UnprocessedDataException \<in> set rs" by (rule promise_all_Inl)
    with map_chunks_not [of "mget_chunk cfg P now" UnprocessedDataException "chunk ks 100" w, OF g] m
    show False by simp
  qed
  have c: "fst (mset_chunk cfg P now t v w) \<noteq> Inl UnprocessedDataException" for v w
  proof -
    have a: "try_map (\<lambda>kd. case marshall_data cfg (snd kd) of Inl e \<Rightarrow> Inl e | Inr m \<Rightarrow> Inr (fst kd, m)) v
            \<noteq> Inl UnprocessedDataException"
      by (rule try_map_not_unprocessed)
        (use marshall_data_not_unprocessed in \<open>auto split: sum.split\<close>)
    have b: "buildMSetInput ms (with_ttl cfg t) now \<noteq> Inl UnprocessedDataException" for ms
    proof -
      have "try_map (\<lambda>kd. case build_Item (fst kd) (snd kd) (with_ttl cfg t) now of
                            Inl e \<Rightarrow> Inl e | Inr it \<Rightarrow> Inr (PutRequest it)) ms
              \<noteq> Inl UnprocessedDataException"
        by (rule try_map_not_unprocessed)
          (use build_Item_not_unprocessed in \<open>auto split: sum.split\<close>)
      then show ?thesis by (auto simp: buildMSetInput_def split: sum.split)
    qed
    from a b s [of _ w] show ?thesis by (auto simp: mset_chunk_def split: sum.split)
  qed
  show "fst (mset cfg P now ord es t w) \<noteq> Inl UnprocessedDataException"
  proof
    assume a: "fst (mset cfg P now ord es t w) = Inl UnprocessedDataException"
    obtain rs w' where m: "map_chunks (mset_chunk cfg P now t) (chunk es 25) w = (rs, w')"
      by (cases "map_chunks (mset_chunk cfg P now t) (chunk es 25) w")
    with a have "promise_all ord rs = Inl UnprocessedDataException"
      by (simp add: mset_def split: sum.splits)
    then have "Inl UnprocessedDataException \<in> set rs" by (rule promise_all_Inl)
    with map_chunks_not [of "mset_chunk cfg P now t" UnprocessedDataException "chunk es 25" w, OF c] m
    show False by simp
  qed
  have d: "(case mdel_chunks cfg P cs w of
              (Inl e, w') \<Rightarrow> e \<noteq> UnprocessedDataException
            | (Inr rs, w') \<Rightarrow> Inl UnprocessedDataException \<notin> set rs)" for cs w
  proof (induction cs arbitrary: w)
    case Nil
    then show ?case by simp
  next
    case (Cons c cs)
    have b: "buildMDelInput c cfg \<noteq> Inl UnprocessedDataException"
    proof -
      have "try_map (\<lambda>key. case deserializeKey key cfg of Inl e \<Rightarrow> Inl e | Inr k \<Rightarrow> Inr (DeleteRequest k)) c
              \<noteq> Inl UnprocessedDataException"
        by (rule try_map_not_unprocessed)
          (use deserializeKey_not_unprocessed in \<open>auto split: sum.split\<close>)
      then show ?thesis by (auto simp: buildMDelInput_def split: sum.split)
    qed
    show ?case
    proof (cases "buildMDelInput c cfg")
      case (Inl e)
      with b show ?thesis by auto
    next
      case (Inr inp)
      obtain r w1 where r: "send P (BatchWriteItemCommand inp) w = (r, w1)"
        by (cases "send P (BatchWriteItemCommand inp) w")
      with s [of "BatchWriteItemCommand inp" w] have "r \<noteq> Inl UnprocessedDataException" by simp
      with Inr r Cons.IH [of w1] show ?thesis by (auto split: prod.splits sum.splits)
    qed
  qed
  show "fst (mdel cfg P ord ks w) \<noteq> Inl UnprocessedDataException"
  proof
    assume a: "fst (mdel cfg P ord ks w) = Inl UnprocessedDataException"
    obtain x w' where m: "mdel_chunks cfg P (chunk ks 25) w = (x, w')"
      by (cases "mdel_chunks cfg P (chunk ks 25) w")
    show False
    proof (cases x)
      case (Inl e)
      with a m d [of "chunk ks 25" w] show False by (simp add: mdel_def)
    next
      case (Inr rs)
      with a m have "promise_all ord rs = Inl UnprocessedDataException"
        by (simp add: mdel_def split: sum.splits)
      then have "Inl UnprocessedDataException \<in> set rs" by (rule promise_all_Inl)
      with Inr m d [of "chunk ks 25" w] show False by simp
    qed
  qed
qed

text \<open>
  Claim C1 (not met by the store). \<open>mset\<close>, \<open>mget\<close> and \<open>mdel\<close> of \<open>store.ts\<close> do not call
  the backoff helper and do not read the unprocessed subset of a response: against the
  provider whose every response reports unprocessed items, each of them sends one command
  for the chunk and fulfils.
\<close>

theorem store_batches_send_once:
  "fst (mset test_config throttled 0 [] [(''123+aaa'', Num ''100'')] None ((), [])) = Inr ()
   \<and> length (snd (snd (mset test_config throttled 0 [] [(''123+aaa'', Num ''100'')] None ((), [])))) = 1
   \<and> fst (mget test_config throttled 0 [] [''123+aaa'', ''123+bbb'', ''123+ccc''] ((), []))
       = Inr [Undefined, Undefined, Undefined]
   \<and> length (snd (snd (mget test_config throttled 0 [] [''123+aaa'', ''123+bbb'', ''123+ccc''] ((), [])))) = 1
   \<and> fst (mdel test_config throttled [] [''123+aaa'', ''123+bbb'', ''123+ccc''] ((), [])) = Inr ()
   \<and> length (snd (snd (mdel test_config throttled [] [''123+aaa'', ''123+bbb'', ''123+ccc''] ((), [])))) = 1"
  by (simp add: eval_defs chunk_single)

section \<open>Expired entries\<close>

text \<open>
  \<open>isExpired\<close>, given an unmarshalled record, never answers that the record is expired, so
  what \<open>get\<close> and \<open>mget\<close> return does not depend on the clock.
\<close>

lemma isExpired_never: "isExpired record cfg now = Inr b \<Longrightarrow> \<not> b"
  by (auto simp: isExpired_def get_member_def parseInt_val_def split: jsval.splits sum.splits)

lemma read_item_ignores_clock: "read_item cfg now1 raw = read_item cfg now2 raw"
proof -
  have "isExpired obj cfg now1 = isExpired obj cfg now2" for obj
    by (simp add: isExpired_def get_member_def parseInt_val_def split: jsval.split)
  then show ?thesis by (simp add: read_item_def split: sum.split)
qed

lemma get_ignores_clock: "get cfg P now1 key w = get cfg P now2 key w"
  unfolding get_def read_item_ignores_clock [of cfg now1 _ now2] ..

text \<open>
  The matching of \<open>mget\<close>: within a chunk, a requested key gets the last returned record
  whose encoded key is the requested key, whatever its position in the response, and
  \<open>undefined\<close> when there is none.
\<close>

lemma find_snoc:
  "find p (xs @ [x]) = (case find p xs of None \<Rightarrow> (if p x then Some x else None) | Some y \<Rightarrow> Some y)"
  by (induction xs) auto

lemma map_of_index_items:
  "index_items cfg items acc = Inr m \<Longrightarrow>
     map_of m key = (case find (encodes_to cfg key) (rev items) of
                       None \<Rightarrow> map_of acc key
                     | Some it \<Rightarrow> Some it)"
proof (induction items arbitrary: acc)
  case Nil
  then show ?case by simp
next
  case (Cons item items)
  from Cons.prems obtain k where k: "serializeKey item cfg = Inr k"
    and m: "index_items cfg items (AList.update (template k) item acc) = Inr m"
    by (auto split: sum.splits)
  from Cons.IH [OF m] k show ?case
    by (auto simp: find_snoc encodes_to_def update_conv' split: option.splits)
qed

lemma mget_collect_by_key:
  assumes "Responses response = Some rs" and "map_of rs (cfg_table cfg) = Some items"
    and "index_items cfg items [] = Inr m"
  shows "mget_collect cfg now ks response
           = try_map (\<lambda>key. case find (encodes_to cfg key) (rev items) of
                               None \<Rightarrow> Inr Undefined
                             | Some raw \<Rightarrow> read_item cfg now raw) ks"
proof -
  have "map_of m key = find (encodes_to cfg key) (rev items)" for key
    using map_of_index_items [OF assms(3), of key] by (simp split: option.splits)
  then show ?thesis using assms by (simp add: mget_collect_def)
qed

text \<open>The stored entry of the fixtures is what \<open>set\<close> writes.\<close>

lemma set_writes_stored_entry:
  "set_entry test_config table_provider 1701732105000 ''123+foo'' (Num ''1000'') None ([], [])
     = (Inr (), ([stored_entry],
          [PutItemCommand (empty_input\<lparr>Item := Some stored_entry, TableName := Some ''TestCache'',
              NoneOptions := [''ReturnValues'', ''ReturnConsumedCapacity'', ''ReturnItemCollectionMetrics'']\<rparr>)]))"
  by (simp add: eval_defs dynamo_defs number_defs)

text \<open>
  Claim C5 (not met by \<open>get\<close>). The stored entry expired at the second 1701732405; at the
  instant 1701732465000 \<open>get\<close> still returns its payload, since \<open>isExpired\<close> is given the
  unmarshalled record, whose expiration property is a number without a member \<open>N\<close>
  (\<open>isExpired_never\<close>, \<open>read_item_ignores_clock\<close>). The rest of the claim holds here:
  \<open>get\<close> sends one \<open>GetItem\<close> command and nothing else, and \<open>keys()\<close> lists the key.
\<close>

theorem get_returns_expired_entry:
  "parseInt ''1701732405'' = Some 1701732405
   \<and> (1701732405::int) * 1000 < 1701732465000
   \<and> get test_config table_provider 1701732465000 ''123+foo'' ([stored_entry], [])
       = (Inr (Num ''1000''),
          ([stored_entry],
           [GetItemCommand (empty_input\<lparr>Key := Some [(''Id'', S (Some ''123'')), (''Name'', S (Some ''foo''))],
                              TableName := Some ''TestCache'',
                              NoneOptions := [''ReturnConsumedCapacity'']\<rparr>)]))
   \<and> map_option fst (keys 1 test_config table_provider None ([stored_entry], []))
       = Some (Inr [Some ''123+foo''])"
  by (simp add: eval_defs dynamo_defs number_defs)

text \<open>
  Claim C3 (not met for expired records). \<open>mget\<close> returns the payload of the expired
  entry for its key, and \<open>undefined\<close> for the key that no returned record matches.
\<close>

theorem mget_returns_expired_entry:
  "fst (mget test_config table_provider 1701732465000 [] [''123+foo'', ''123+bar''] ([stored_entry], []))
     = Inr [Num ''1000'', Undefined]"
  by (simp add: eval_defs dynamo_defs chunk_single)

section \<open>Touch\<close>

lemma same_key_update:
  "name \<notin> fst ` set k \<Longrightarrow> same_key k (AList.update name v y) = same_key k y"
  by (auto simp: same_key_def list_all_iff update_conv')

lemma length_update_first: "length (update_first p f xs) = length xs"
  by (induction xs) auto

lemma nth_update_first:
  "i < length xs \<Longrightarrow> update_first p f xs ! i = xs ! i \<or> update_first p f xs ! i = f (xs ! i)"
proof (induction xs arbitrary: i)
  case Nil
  then show ?case by simp
next
  case (Cons x xs)
  then show ?case by (cases i) auto
qed

lemma nth_update_first_other:
  "i < length xs \<Longrightarrow> \<not> p (xs ! i) \<Longrightarrow> update_first p f xs ! i = xs ! i"
proof (induction xs arbitrary: i)
  case Nil
  then show ?case by simp
next
  case (Cons x xs)
  then show ?case by (cases i) auto
qed

lemma find_update_first:
  assumes "find p xs = Some x" and "\<And>y. p (f y) = p y"
  shows "find p (update_first p f xs) = Some (f x)"
  using assms by (induction xs) (auto split: if_splits)

lemma convert_props_update:
  assumes "convert_props f xs = Inr ys" and "f a = Inr b"
  shows "convert_props f (AList.update name a xs) = Inr (AList.update name b ys)"
  using assms
proof (induction xs arbitrary: ys)
  case Nil
  then show ?case by simp
next
  case (Cons x xs)
  then show ?case by (cases x) (auto split: sum.splits)
qed

lemma map_of_filter_name:
  "map_of (filter (\<lambda>kv. fst kv = n) xs) a = (if a = n then map_of xs a else None)"
  by (induction xs) auto

lemma deserializeKey_with_ttl: "deserializeKey key (with_ttl cfg t) = deserializeKey key cfg"
  by (simp add: deserializeKey_def with_ttl_def)

lemma expiresAt_with_ttl:
  "t \<noteq> 0 \<Longrightarrow> expiresAt_string (with_ttl cfg (Some t)) now = toString (msToS (now + t))"
  by (simp add: expiresAt_string_def with_ttl_def js_or_def truthy_num_def)

lemma read_item_update:
  assumes "read_item cfg now1 it = Inr v" and "ex (cfg_keys cfg) \<noteq> ''data''"
  shows "read_item cfg now2 (AList.update (ex (cfg_keys cfg)) (N s) it) = Inr v"
proof -
  from assms(1) obtain obj b where obj: "unmarshall it = Inr obj"
    and b: "isExpired obj cfg now1 = Inr b"
    and v: "v = (if b then Undefined else get_prop obj ''data'')"
    by (auto simp: read_item_def split: sum.splits)
  from b have nb: "\<not> b" by (rule isExpired_never)
  have u: "unmarshall (AList.update (ex (cfg_keys cfg)) (N s) it)
            = Inr (AList.update (ex (cfg_keys cfg)) (Num s) obj)"
    using obj unfolding unmarshall_def
    by (rule convert_props_update) (simp add: convertToNative_def)
  have e: "isExpired (AList.update (ex (cfg_keys cfg)) (Num s) obj) cfg now2 = Inr False"
    by (simp add: isExpired_def get_prop_def update_conv' get_member_def parseInt_val_def)
  have d: "get_prop (AList.update (ex (cfg_keys cfg)) (Num s) obj) ''data'' = get_prop obj ''data''"
    using assms(2) by (simp add: get_prop_def update_conv')
  from u e d v nb show ?thesis by (simp add: read_item_def)
qed

lemma get_dynamo:
  assumes "deserializeKey key cfg = Inr k"
  shows "fst (get cfg (dynamo ka) now key (tbl, log))
           = (case find (same_key k) tbl of None \<Rightarrow> Inr Undefined | Some it \<Rightarrow> read_item cfg now it)"
  using assms
  by (simp add: get_def buildGetInput_def send_def dynamo_def project_def empty_input_def
      empty_response_def split: option.split)

lemma ttl_dynamo:
  assumes "deserializeKey key cfg = Inr k" and "find (same_key k) tbl = Some it"
    and "map_of it (ex (cfg_keys cfg)) = Some (N s)" and "s \<noteq> []"
  shows "fst (ttl cfg (dynamo ka) now key (tbl, log))
           = Inr (case parseInt s of None \<Rightarrow> None | Some n \<Rightarrow> Some (n * 1000 - now))"
proof -
  let ?inp = "empty_input\<lparr>Key := Some k, TableName := Some (cfg_table cfg),
                 ExpressionAttributeNames := Some [(''#ex'', Some (ex (cfg_keys cfg)))],
                 ProjectionExpression := Some ''#ex'',
                 NoneOptions := [''ReturnConsumedCapacity'']\<rparr>"
  have b: "buildTTLInput key cfg = Inr ?inp" using assms(1) by (simp add: buildTTLInput_def)
  have p: "project ?inp it = filter (\<lambda>kv. fst kv = ex (cfg_keys cfg)) it"
    by (simp add: project_def empty_input_def resolve_name_def is_space_def)
  have "dynamo ka (GetItemCommand ?inp) tbl
          = (Inr (empty_response\<lparr>Item_out := Some (project ?inp it)\<rparr>), tbl)"
    using assms(2) by (simp add: dynamo_def empty_input_def)
  then show ?thesis using assms(3,4)
    by (simp add: ttl_def b send_def p map_of_filter_name member_N_def empty_response_def)
qed

text \<open>
  Claim C8, as amended. For a stored entry, under a schema whose expiration attribute is
  not a key attribute, \<open>touch(key, ttl)\<close> with a non-zero \<open>ttl\<close> sends one update command,
  with the expression \<open>set #ex = :ex\<close> on the expiration attribute; in the table it changes
  no record with another key, and no attribute but the expiration attribute, which for the
  entry becomes \<open>msToS(now + ttl)\<close>. Afterwards \<open>get(key)\<close> returns what it returned before (when the
  expiration attribute is not named \<open>data\<close>), and \<open>ttl(key)\<close> is
  \<open>msToS(now + ttl) * 1000\<close> minus the instant of the reading; when the new \<open>ttl\<close> is
  bigger than the remaining lifetime, the remaining lifetime read at the instant of the
  touch does not decrease.
\<close>

theorem touch_updates_expiration_only:
  assumes "deserializeKey key cfg = Inr k"
    and "ex (cfg_keys cfg) \<notin> fst ` set k"
    and "find (same_key k) tbl = Some it"
    and "t \<noteq> 0"
    and "touch cfg (dynamo ka) now key (Some t) (tbl, log) = (r, (tbl', log'))"
  shows "r = Inr ()
    \<and> (\<exists>inp. buildTouchInput key (with_ttl cfg (Some t)) now = Inr inp
          \<and> UpdateExpression inp = Some ''set #ex = :ex''
          \<and> ExpressionAttributeNames inp = Some [(''#ex'', Some (ex (cfg_keys cfg)))]
          \<and> log' = log @ [UpdateItemCommand inp])
    \<and> length tbl' = length tbl
    \<and> (\<forall>i a. i < length tbl \<and> a \<noteq> ex (cfg_keys cfg) \<longrightarrow> map_of (tbl' ! i) a = map_of (tbl ! i) a)
    \<and> (\<forall>i. i < length tbl \<and> \<not> same_key k (tbl ! i) \<longrightarrow> tbl' ! i = tbl ! i)
    \<and> (\<exists>it'. find (same_key k) tbl' = Some it'
          \<and> map_of it' (ex (cfg_keys cfg)) = Some (N (toString (msToS (now + t)))))
    \<and> (\<forall>now1 now2 log1 log2 v.
          ex (cfg_keys cfg) \<noteq> ''data'' \<and> fst (get cfg (dynamo ka) now1 key (tbl, log1)) = Inr v
          \<longrightarrow> fst (get cfg (dynamo ka) now2 key (tbl', log2)) = Inr v)
    \<and> (\<forall>now2 log2. fst (ttl cfg (dynamo ka) now2 key (tbl', log2))
                        = Inr (Some (msToS (now + t) * 1000 - now2)))
    \<and> (\<forall>s e log1.
          map_of it (ex (cfg_keys cfg)) = Some (N s) \<and> s \<noteq> [] \<and> parseInt s = Some e
          \<and> e * 1000 - now < t
          \<longrightarrow> fst (ttl cfg (dynamo ka) now key (tbl, log1)) = Inr (Some (e * 1000 - now))
              \<and> e * 1000 - now \<le> msToS (now + t) * 1000 - now)"
proof -
  let ?ex = "ex (cfg_keys cfg)"
  let ?v = "N (toString (msToS (now + t)))"
  let ?inp = "empty_input\<lparr>Key := Some k,
                 UpdateExpression := Some ''set #ex = :ex'',
                 ExpressionAttributeNames := Some [(''#ex'', Some ?ex)],
                 ExpressionAttributeValues := Some [('':ex'', Some ?v)],
                 TableName := Some (cfg_table (with_ttl cfg (Some t))),
                 NoneOptions := [''ReturnValues'', ''ReturnConsumedCapacity'',
                                 ''ReturnItemCollectionMetrics'']\<rparr>"
  let ?tbl = "update_first (same_key k) (AList.update ?ex ?v) tbl"
  let ?it = "AList.update ?ex ?v it"
  have exk: "ex (cfg_keys (with_ttl cfg (Some t))) = ?ex" by (simp add: with_ttl_def)
  have b: "buildTouchInput key (with_ttl cfg (Some t)) now = Inr ?inp"
    using assms(1,4)
    by (simp add: buildTouchInput_def deserializeKey_with_ttl expiresAt_with_ttl exk)
  have d: "dynamo ka (UpdateItemCommand ?inp) tbl = (Inr empty_response, ?tbl)"
    using assms(3)
    by (simp add: dynamo_def empty_input_def resolve_value_def resolve_name_def update_item_def)
  have tch: "touch cfg (dynamo ka) now key (Some t) (tbl, log)
               = (Inr (), (?tbl, log @ [UpdateItemCommand ?inp]))"
    by (simp add: touch_def b send_def d)
  have len: "length ?tbl = length tbl" by (rule length_update_first)
  have frame: "map_of (?tbl ! i) a = map_of (tbl ! i) a" if "i < length tbl" "a \<noteq> ?ex" for i a
    using nth_update_first [OF that(1), of "same_key k" "AList.update ?ex ?v"] that(2)
    by (auto simp: update_conv')
  have others: "?tbl ! i = tbl ! i" if "i < length tbl" "\<not> same_key k (tbl ! i)" for i
    using that by (rule nth_update_first_other)
  have fnd: "find (same_key k) ?tbl = Some ?it"
    using assms(3) by (rule find_update_first) (simp add: same_key_update [OF assms(2)])
  have exv: "map_of ?it ?ex = Some ?v" by (simp add: update_conv')
  have g: "fst (get cfg (dynamo ka) now2 key (?tbl, log2)) = Inr v"
    if "?ex \<noteq> ''data''" "fst (get cfg (dynamo ka) now1 key (tbl, log1)) = Inr v"
    for now1 now2 log1 log2 v
  proof -
    from that(2) have "read_item cfg now1 it = Inr v"
      by (simp add: get_dynamo [OF assms(1)] assms(3))
    then have "read_item cfg now2 ?it = Inr v" using that(1) by (rule read_item_update)
    then show ?thesis by (simp add: get_dynamo [OF assms(1)] fnd)
  qed
  have ta: "fst (ttl cfg (dynamo ka) now2 key (?tbl, log2)) = Inr (Some (msToS (now + t) * 1000 - now2))"
    for now2 log2
    using ttl_dynamo [OF assms(1) fnd exv toString_not_Nil]
    by (simp add: parseInt_toString)
  have tb: "fst (ttl cfg (dynamo ka) now key (tbl, log1)) = Inr (Some (e * 1000 - now))
              \<and> e * 1000 - now \<le> msToS (now + t) * 1000 - now"
    if "map_of it ?ex = Some (N s)" "s \<noteq> []" "parseInt s = Some e" "e * 1000 - now < t"
    for s e log1
  proof -
    have "fst (ttl cfg (dynamo ka) now key (tbl, log1)) = Inr (Some (e * 1000 - now))"
      using ttl_dynamo [OF assms(1,3) that(1,2)] that(3) by simp
    moreover from that(4) have "e \<le> msToS (now + t)"
      unfolding msToS_def by linarith
    ultimately show ?thesis by simp
  qed
  have ue: "UpdateExpression ?inp = Some ''set #ex = :ex''"
    and en: "ExpressionAttributeNames ?inp = Some [(''#ex'', Some ?ex)]"
    by (simp_all add: empty_input_def)
  from tch assms(5) have res: "r = Inr ()" "tbl' = ?tbl" "log' = log @ [UpdateItemCommand ?inp]"
    by simp_all
  have sent: "\<exists>inp. buildTouchInput key (with_ttl cfg (Some t)) now = Inr inp
          \<and> UpdateExpression inp = Some ''set #ex = :ex''
          \<and> ExpressionAttributeNames inp = Some [(''#ex'', Some ?ex)]
          \<and> log' = log @ [UpdateItemCommand inp]"
    using b ue en res(3) by blast
  have entry: "\<exists>it'. find (same_key k) tbl' = Some it' \<and> map_of it' ?ex = Some ?v"
    using fnd exv res(2) by blast
  from res(1) sent len frame others entry g ta tb show ?thesis
    unfolding res(2) by blast
qed

theorem touch_updates_expiration_only_witness:
  "fst (touch test_config table_provider 1701732345000 ''123+foo'' (Some 300000000) ([stored_entry], []))
     = Inr ()
   \<and> fst (get test_config table_provider 1701732346000 ''123+foo''
           (fst (snd (touch test_config table_provider 1701732345000 ''123+foo'' (Some 300000000)
                        ([stored_entry], []))), []))
       = Inr (Num ''1000'')
   \<and> fst (ttl test_config table_provider 1701732345000 ''123+foo''
           (fst (snd (touch test_config table_provider 1701732345000 ''123+foo'' (Some 300000000)
                        ([stored_entry], []))), []))
       = Inr (Some 300000000)"
proof -
  let ?k = "[(''Id'', S (Some ''123'')), (''Name'', S (Some ''foo''))]"
  let ?r = "touch test_config (dynamo [''Id'', ''Name'']) 1701732345000 ''123+foo'' (Some 300000000)
              ([stored_entry], [])"
  have k: "deserializeKey ''123+foo'' test_config = Inr ?k"
    by (simp add: eval_defs)
  have e: "ex (cfg_keys test_config) \<notin> fst ` set ?k"
    by (simp add: test_config_def)
  have f: "find (same_key ?k) [stored_entry] = Some stored_entry"
    by (simp add: same_key_def stored_entry_def)
  have t: "(300000000::int) \<noteq> 0" by simp
  have r: "?r = (fst ?r, (fst (snd ?r), snd (snd ?r)))" by simp
  note T = touch_updates_expiration_only [OF k e f t r]
  have before: "fst (get test_config (dynamo [''Id'', ''Name'']) 1701732345000 ''123+foo'' ([stored_entry], []))
                  = Inr (Num ''1000'')"
    by (simp add: eval_defs dynamo_defs)
  have d: "ex (cfg_keys test_config) \<noteq> ''data''" by (simp add: test_config_def)
  from T have a: "fst ?r = Inr ()" by (rule conjunct1)
  from T have "\<forall>now1 now2 log1 log2 v.
          ex (cfg_keys test_config) \<noteq> ''data''
          \<and> fst (get test_config (dynamo [''Id'', ''Name'']) now1 ''123+foo'' ([stored_entry], log1)) = Inr v
          \<longrightarrow> fst (get test_config (dynamo [''Id'', ''Name'']) now2 ''123+foo'' (fst (snd ?r), log2)) = Inr v"
    by (elim conjE)
  with before d have b: "fst (get test_config (dynamo [''Id'', ''Name'']) 1701732346000 ''123+foo''
                            (fst (snd ?r), [])) = Inr (Num ''1000'')"
    by blast
  from T have "\<forall>now2 log2. fst (ttl test_config (dynamo [''Id'', ''Name'']) now2 ''123+foo'' (fst (snd ?r), log2))
                        = Inr (Some (msToS (1701732345000 + 300000000) * 1000 - now2))"
    by (elim conjE)
  then have c: "fst (ttl test_config (dynamo [''Id'', ''Name'']) 1701732345000 ''123+foo''
                      (fst (snd ?r), [])) = Inr (Some 300000000)"
    by (simp add: msToS_def)
  from a b c show ?thesis by (simp add: table_provider_def)
qed

text \<open>
  The claim as stated fails where it says that \<open>ttl(key)\<close> increases: the expiration is
  kept in whole seconds. The stored entry was set with a TTL of 300000 ms; at the instant it
  was set it has 300000 ms left, and a touch with 300001 ms leaves 300000 ms.
\<close>

theorem touch_ttl_counterexample:
  "fst (ttl test_config table_provider 1701732105000 ''123+foo'' ([stored_entry], [])) = Inr (Some 300000)
   \<and> fst (ttl test_config table_provider 1701732105000 ''123+foo''
           (snd (touch test_config table_provider 1701732105000 ''123+foo'' (Some 300001) ([stored_entry], []))))
       = Inr (Some 300000)"
  by (simp add: eval_defs dynamo_defs number_defs)

section \<open>Default TTL\<close>

lemma with_ttl_zero: "with_ttl cfg (Some 0) = with_ttl cfg None"
  by (simp add: with_ttl_def js_or_def truthy_num_def)

lemma with_ttl_fields:
  "cfg_keys (with_ttl cfg t) = cfg_keys cfg"
  "cfg_table (with_ttl cfg t) = cfg_table cfg"
  by (simp_all add: with_ttl_def)

lemma expiresAt_zero:
  "expiresAt_string (with_ttl cfg (Some 0)) now = toString (msToS (now + spec_default_ttl cfg))"
  by (simp add: expiresAt_string_def with_ttl_def js_or_def truthy_num_def defaultTtl_def
      spec_default_ttl_def split: option.split)

lemma zero_ttl_as_omitted:
  "set_entry cfg P now key data (Some 0) w = set_entry cfg P now key data None w"
  "mset cfg P now ord args (Some 0) w = mset cfg P now ord args None w"
  "touch cfg P now key (Some 0) w = touch cfg P now key None w"
  unfolding set_entry_def mset_def mset_chunk_def touch_def with_ttl_zero by (rule refl)+

lemma assign_single: "assign xs [(a, v)] = AList.update a v xs"
  by (simp add: assign_def)

lemma set_entry_log:
  assumes "deserializeKey key cfg = Inr k" and "marshall_data cfg data = Inr m"
  shows "snd (snd (set_entry cfg P now key data t (st, log)))
           = log @ [PutItemCommand
                (empty_input\<lparr>Item := Some (assign (assign m k)
                                 [(ex (cfg_keys cfg), N (expiresAt_string (with_ttl cfg t) now))]),
                   TableName := Some (cfg_table cfg),
                   NoneOptions := [''ReturnValues'', ''ReturnConsumedCapacity'',
                                   ''ReturnItemCollectionMetrics'']\<rparr>)]"
  using assms
  by (simp add: set_entry_def buildSetInput_def build_Item_def deserializeKey_with_ttl
      with_ttl_fields send_def split: prod.split sum.split)

lemma touch_log:
  assumes "deserializeKey key cfg = Inr k"
  shows "snd (snd (touch cfg P now key t (st, log)))
           = log @ [UpdateItemCommand
                (empty_input\<lparr>Key := Some k,
                   UpdateExpression := Some ''set #ex = :ex'',
                   ExpressionAttributeNames := Some [(''#ex'', Some (ex (cfg_keys cfg)))],
                   ExpressionAttributeValues :=
                     Some [('':ex'', Some (N (expiresAt_string (with_ttl cfg t) now)))],
                   TableName := Some (cfg_table cfg),
                   NoneOptions := [''ReturnValues'', ''ReturnConsumedCapacity'',
                                   ''ReturnItemCollectionMetrics'']\<rparr>)]"
  using assms
  by (simp add: touch_def buildTouchInput_def deserializeKey_with_ttl
      with_ttl_fields send_def split: prod.split sum.split)

lemma try_map_image:
  "try_map f xs = Inr ys \<Longrightarrow> y \<in> set ys \<Longrightarrow> \<exists>x\<in>set xs. f x = Inr y"
  by (induction xs arbitrary: ys) (auto split: sum.splits)

lemma concat_singletons:
  "(\<And>y. y \<in> set ys \<Longrightarrow> h y = [v]) \<Longrightarrow> concat (map h ys) = replicate (length ys) v"
  by (induction ys) auto

lemma build_Item_expiration:
  assumes "build_Item key data cfg now = Inr it"
  shows "map_of it (ex (cfg_keys cfg)) = Some (N (expiresAt_string cfg now))"
  using assms
  by (auto simp: build_Item_def assign_single update_conv' split: sum.splits)

lemma mset_chunk_expirations:
  assumes "list_all (\<lambda>kd. fst kd \<noteq> [] \<and> \<not> startsWith (fst kd) DELIMITER
                        \<and> \<not> isl (marshall_data cfg (snd kd))) c"
  shows "\<exists>r st' cmd. mset_chunk cfg P now t c (st, log) = (r, (st', log @ [cmd]))
           \<and> put_expirations cfg cmd
               = replicate (length c) (Some (N (expiresAt_string (with_ttl cfg t) now)))"
proof -
  let ?f = "\<lambda>kd. case marshall_data cfg (snd kd) of Inl e \<Rightarrow> Inl e | Inr m \<Rightarrow> Inr (fst kd, m)"
  have "\<exists>ms. try_map ?f c = Inr ms \<and> length ms = length c"
  proof (rule try_map_total)
    fix x assume "x \<in> set c"
    with assms have "\<not> isl (marshall_data cfg (snd x))" by (auto simp: list_all_iff)
    then show "\<exists>y. ?f x = Inr y" by (cases "marshall_data cfg (snd x)") simp_all
  qed
  then obtain ms where ms: "try_map ?f c = Inr ms" "length ms = length c" by blast
  have keys: "fst kd \<noteq> [] \<and> \<not> startsWith (fst kd) DELIMITER" if "kd \<in> set ms" for kd
  proof -
    have "map fst ms = map fst c" using ms(1) by (rule try_map_keeps_keys)
    then have "fst ` set ms = fst ` set c" by (metis set_map)
    with that have "fst kd \<in> fst ` set c" by blast
    with assms show ?thesis by (auto simp: list_all_iff)
  qed
  let ?g = "\<lambda>kd. case build_Item (fst kd) (snd kd) (with_ttl cfg t) now of
                   Inl e \<Rightarrow> Inl e | Inr it \<Rightarrow> Inr (PutRequest it)"
  have "\<exists>rs. try_map ?g ms = Inr rs \<and> length rs = length ms"
  proof (rule try_map_total)
    fix x assume "x \<in> set ms"
    then obtain it where "build_Item (fst x) (snd x) (with_ttl cfg t) now = Inr it"
      using keys build_Item_valid by blast
    then show "\<exists>y. ?g x = Inr y" by simp
  qed
  then obtain rs where rs: "try_map ?g ms = Inr rs" "length rs = length ms" by blast
  let ?inp = "empty_input\<lparr>RequestItems := Some [(cfg_table (with_ttl cfg t), Requests rs)],
                 NoneOptions := [''ReturnValue'', ''ReturnConsumedCapacity'',
                                 ''ReturnItemCollectionMetrics'']\<rparr>"
  let ?v = "Some (N (expiresAt_string (with_ttl cfg t) now))"
  have b: "buildMSetInput ms (with_ttl cfg t) now = Inr ?inp" by (simp add: buildMSetInput_def rs)
  have one: "(case r of PutRequest it \<Rightarrow> [map_of it (ex (cfg_keys cfg))] | DeleteRequest k \<Rightarrow> []) = [?v]"
    if "r \<in> set rs" for r
  proof -
    from try_map_image [OF rs(1) that] obtain x where "?g x = Inr r" by blast
    then obtain it where "build_Item (fst x) (snd x) (with_ttl cfg t) now = Inr it" "r = PutRequest it"
      by (auto split: sum.splits)
    then show ?thesis using build_Item_expiration [of "fst x" "snd x" "with_ttl cfg t" now it]
      by (simp add: with_ttl_fields)
  qed
  have ex: "put_expirations cfg (BatchWriteItemCommand ?inp) = replicate (length c) ?v"
    using concat_singletons [of rs _ ?v, OF one]
    by (simp add: put_expirations_def rs ms)
  obtain r st' where p: "P (BatchWriteItemCommand ?inp) st = (r, st')"
    by (cases "P (BatchWriteItemCommand ?inp) st")
  then have "mset_chunk cfg P now t c (st, log) = (r, (st', log @ [BatchWriteItemCommand ?inp]))"
    by (simp add: mset_chunk_def ms b send_def)
  with ex show ?thesis by blast
qed

lemma map_chunks_observe:
  assumes "\<And>c st log. c \<in> set cs \<Longrightarrow>
             \<exists>r st' cmd. f c (st, log) = (r, (st', log @ [cmd])) \<and> obs cmd = replicate (length c) v"
  shows "\<exists>rs st' log'. map_chunks f cs (st, log) = (rs, (st', log'))
           \<and> concat (map obs log') = concat (map obs log) @ replicate (length (concat cs)) v"
  using assms
proof (induction cs arbitrary: st log)
  case Nil
  then show ?case by simp
next
  case (Cons c cs)
  from Cons.prems [of c st log] obtain r st1 cmd
    where c: "f c (st, log) = (r, (st1, log @ [cmd]))" "obs cmd = replicate (length c) v" by auto
  from Cons.IH [of st1 "log @ [cmd]"] Cons.prems obtain rs st' log'
    where r: "map_chunks f cs (st1, log @ [cmd]) = (rs, (st', log'))"
      "concat (map obs log') = concat (map obs (log @ [cmd])) @ replicate (length (concat cs)) v" by auto
  from c r show ?case by (simp add: replicate_add)
qed

lemma mset_expirations:
  assumes "list_all (\<lambda>kd. fst kd \<noteq> [] \<and> \<not> startsWith (fst kd) DELIMITER
                         \<and> \<not> isl (marshall_data cfg (snd kd))) args"
  shows "concat (map (put_expirations cfg) (snd (snd (mset cfg P now ord args t (st, [])))))
           = replicate (length args) (Some (N (expiresAt_string (with_ttl cfg t) now)))"
proof -
  let ?v = "Some (N (expiresAt_string (with_ttl cfg t) now))"
  have "\<exists>rs st' log'. map_chunks (mset_chunk cfg P now t) (chunk args 25) (st, []) = (rs, (st', log'))
           \<and> concat (map (put_expirations cfg) log')
               = concat (map (put_expirations cfg) []) @ replicate (length (concat (chunk args 25))) ?v"
  proof (rule map_chunks_observe)
    fix c st log assume "c \<in> set (chunk args 25)"
    then have "set c \<subseteq> set args" by (rule chunk_subset)
    with assms have "list_all (\<lambda>kd. fst kd \<noteq> [] \<and> \<not> startsWith (fst kd) DELIMITER
                         \<and> \<not> isl (marshall_data cfg (snd kd))) c"
      by (auto simp: list_all_iff)
    then show "\<exists>r st' cmd. mset_chunk cfg P now t c (st, log) = (r, (st', log @ [cmd]))
           \<and> put_expirations cfg cmd = replicate (length c) ?v" by (rule mset_chunk_expirations)
  qed
  then obtain rs st' log' where
    "map_chunks (mset_chunk cfg P now t) (chunk args 25) (st, []) = (rs, (st', log'))"
    "concat (map (put_expirations cfg) log') = replicate (length args) ?v"
    by (auto simp: concat_chunk)
  then show ?thesis by (cases "promise_all ord rs") (simp_all add: mset_def)
qed

text \<open>
  What \<open>set\<close> and \<open>touch\<close> leave in the table provider: the record that \<open>set\<close> puts is
  found by its key, and carries the expiration that the builder computed.
\<close>

lemma deserializeKey_distinct: "deserializeKey key cfg = Inr k \<Longrightarrow> distinct (map fst k)"
  by (auto simp: deserializeKey_def Let_def assign_def split: if_splits option.splits)

lemma distinct_assign: "distinct (map fst xs) \<Longrightarrow> distinct (map fst (assign xs ys))"
  unfolding assign_def
  by (induction ys arbitrary: xs) (simp_all add: distinct_update)

lemma map_of_assign:
  "distinct (map fst ys) \<Longrightarrow>
     map_of (assign xs ys) a = (case map_of ys a of None \<Rightarrow> map_of xs a | Some v \<Rightarrow> Some v)"
  unfolding assign_def
proof (induction ys arbitrary: xs)
  case Nil
  then show ?case by simp
next
  case (Cons y ys)
  from Cons.prems have n: "map_of ys (fst y) = None" by (simp add: map_of_eq_None_iff)
  from Cons.prems have d: "distinct (map fst ys)" by simp
  show ?case
    using Cons.IH [OF d, of "AList.update (fst y) (snd y) xs"] n
    by (cases "a = fst y") (simp_all add: update_conv' split: option.split)
qed

lemma convert_props_names: "convert_props f xs = Inr ys \<Longrightarrow> map fst ys = map fst xs"
  by (induction xs arbitrary: ys) (auto split: sum.splits)

lemma marshall_data_distinct: "marshall_data cfg data = Inr m \<Longrightarrow> distinct (map fst m)"
proof -
  assume "marshall_data cfg data = Inr m"
  then have "map fst m = map fst (assign [(''data'', data)] (case cfg_meta cfg of None \<Rightarrow> [] | Some f \<Rightarrow> f data))"
    unfolding marshall_data_def marshall_def by (rule convert_props_names)
  then show ?thesis by (simp add: distinct_assign)
qed

lemma find_put_item:
  assumes "distinct (map fst it)" and "same_key k it" and "fst ` set k = set ka"
  shows "find (same_key k) (put_item ka it tbl) = Some it"
proof -
  have "same_key (key_of ka it) x" if "same_key k x" for x
    unfolding same_key_def key_of_def list_all_iff
  proof
    fix kv assume "kv \<in> set (filter (\<lambda>kv. fst kv \<in> set ka) it)"
    then have kv: "kv \<in> set it" "fst kv \<in> set ka" by auto
    with assms(3) obtain v where v: "(fst kv, v) \<in> set k" by force
    with assms(2) have "map_of it (fst kv) = Some v" by (auto simp: same_key_def list_all_iff)
    moreover from assms(1) kv(1) have "map_of it (fst kv) = Some (snd kv)" by simp
    ultimately have "v = snd kv" by simp
    with v that show "map_of x (fst kv) = Some (snd kv)" by (auto simp: same_key_def list_all_iff)
  qed
  then have "find (same_key k) (filter (\<lambda>x. \<not> same_key (key_of ka it) x) tbl) = None"
    by (auto simp: find_None_iff)
  with assms(2) show ?thesis by (simp add: put_item_def find_snoc)
qed

lemma built_item_key:
  assumes "deserializeKey key cfg = Inr k" and "a \<notin> fst ` set k"
  shows "same_key k (assign (assign m k) [(a, v)])"
proof -
  have d: "distinct (map fst k)" using assms(1) by (rule deserializeKey_distinct)
  have "map_of (AList.update a v (assign m k)) (fst kv) = Some (snd kv)" if "kv \<in> set k" for kv
  proof -
    from that assms(2) have "fst kv \<noteq> a" by auto
    moreover from d that have "map_of k (fst kv) = Some (snd kv)" by simp
    ultimately show ?thesis by (simp add: update_conv' map_of_assign [OF d])
  qed
  then show ?thesis by (simp add: same_key_def list_all_iff assign_single)
qed

lemma set_entry_dynamo:
  assumes "deserializeKey key cfg = Inr k" and "marshall_data cfg data = Inr m"
    and "ex (cfg_keys cfg) \<notin> fst ` set k"
  shows "\<exists>it. find (same_key k) (fst (snd (set_entry cfg (dynamo (map fst k)) now key data t (tbl, log)))) = Some it
            \<and> map_of it (ex (cfg_keys cfg)) = Some (N (expiresAt_string (with_ttl cfg t) now))"
proof -
  let ?v = "N (expiresAt_string (with_ttl cfg t) now)"
  let ?it = "assign (assign m k) [(ex (cfg_keys cfg), ?v)]"
  have tbl: "fst (snd (set_entry cfg (dynamo (map fst k)) now key data t (tbl, log)))
               = put_item (map fst k) ?it tbl"
    using assms(1,2)
    by (simp add: set_entry_def buildSetInput_def build_Item_def deserializeKey_with_ttl
        with_ttl_fields send_def dynamo_def empty_input_def)
  have "distinct (map fst ?it)"
    using marshall_data_distinct [OF assms(2)]
    by (simp add: assign_single distinct_update distinct_assign)
  moreover have "same_key k ?it" using assms(1,3) by (rule built_item_key)
  ultimately have "find (same_key k) (put_item (map fst k) ?it tbl) = Some ?it"
    by (rule find_put_item) simp
  moreover have "map_of ?it (ex (cfg_keys cfg)) = Some ?v"
    by (simp add: assign_single update_conv')
  ultimately show ?thesis using tbl by simp
qed

lemma touch_dynamo:
  assumes "deserializeKey key cfg = Inr k" and "ex (cfg_keys cfg) \<notin> fst ` set k"
    and "find (same_key k) tbl = Some it"
  shows "\<exists>it'. find (same_key k) (fst (snd (touch cfg (dynamo ka) now key t (tbl, log)))) = Some it'
            \<and> map_of it' (ex (cfg_keys cfg)) = Some (N (expiresAt_string (with_ttl cfg t) now))"
proof -
  let ?ex = "ex (cfg_keys cfg)"
  let ?v = "N (expiresAt_string (with_ttl cfg t) now)"
  let ?tbl = "update_first (same_key k) (AList.update ?ex ?v) tbl"
  have tbl: "fst (snd (touch cfg (dynamo ka) now key t (tbl, log))) = ?tbl"
    using assms(1,3)
    by (simp add: touch_def buildTouchInput_def deserializeKey_with_ttl with_ttl_fields send_def
        dynamo_def empty_input_def resolve_value_def resolve_name_def update_item_def)
  have "find (same_key k) ?tbl = Some (AList.update ?ex ?v it)"
    using assms(3) by (rule find_update_first) (simp add: same_key_update [OF assms(2)])
  moreover have "map_of (AList.update ?ex ?v it) ?ex = Some ?v" by (simp add: update_conv')
  ultimately show ?thesis using tbl by simp
qed

lemma ttl_after:
  assumes "deserializeKey key cfg = Inr k" and "find (same_key k) tbl = Some it"
    and "map_of it (ex (cfg_keys cfg)) = Some (N (toString e))"
  shows "fst (ttl cfg (dynamo ka) now key (tbl, log)) = Inr (Some (e * 1000 - now))"
  using ttl_dynamo [OF assms toString_not_Nil] by (simp add: parseInt_toString)

text \<open>
  Claim C10. A \<open>ttl\<close> argument of 0 is falsy, so \<open>set\<close>, \<open>mset\<close> and \<open>touch\<close> called with it
  do what they do without the argument, on every provider and in every state. The
  expiration they write is that of the default TTL (the configured one, or 60000 ms): for
  a key that \<open>deserializeKey\<close> accepts and a payload that \<open>marshall\<close> accepts, \<open>set\<close> sends
  one \<open>PutItem\<close> command whose item carries the expiration \<open>msToS(now + default)\<close>, and
  \<open>touch\<close> one \<open>UpdateItem\<close> command that sets the expiration attribute to it; every
  record that the batch writes of \<open>mset\<close> put carries it. Against the table provider of
  the schema's key attributes (the expiration attribute not being one of them), \<open>ttl(key)\<close>
  read after \<open>set(key, data, 0)\<close>, and after \<open>touch(key, 0)\<close> on an entry that \<open>set\<close> wrote,
  is \<open>msToS(now + default) * 1000\<close> minus the instant of the reading.
\<close>

theorem zero_ttl_is_default:
  "set_entry cfg P now key data (Some 0) w = set_entry cfg P now key data None w
   \<and> mset cfg P now ord args (Some 0) w = mset cfg P now ord args None w
   \<and> touch cfg P now key (Some 0) w = touch cfg P now key None w
   \<and> (deserializeKey key cfg = Inr k \<and> marshall_data cfg data = Inr m \<longrightarrow>
        snd (snd (set_entry cfg P now key data (Some 0) (st, log)))
          = log @ [PutItemCommand
               (empty_input\<lparr>Item := Some (assign (assign m k)
                                [(ex (cfg_keys cfg), N (toString (msToS (now + spec_default_ttl cfg))))]),
                  TableName := Some (cfg_table cfg),
                  NoneOptions := [''ReturnValues'', ''ReturnConsumedCapacity'',
                                  ''ReturnItemCollectionMetrics'']\<rparr>)])
   \<and> (list_all (\<lambda>kd. fst kd \<noteq> [] \<and> \<not> startsWith (fst kd) DELIMITER
                        \<and> \<not> isl (marshall_data cfg (snd kd))) args \<longrightarrow>
        concat (map (put_expirations cfg) (snd (snd (mset cfg P now ord args (Some 0) (st, [])))))
          = replicate (length args) (Some (N (toString (msToS (now + spec_default_ttl cfg))))))
   \<and> (deserializeKey key cfg = Inr k \<longrightarrow>
        snd (snd (touch cfg P now key (Some 0) (st, log)))
          = log @ [UpdateItemCommand
               (empty_input\<lparr>Key := Some k,
                  UpdateExpression := Some ''set #ex = :ex'',
                  ExpressionAttributeNames := Some [(''#ex'', Some (ex (cfg_keys cfg)))],
                  ExpressionAttributeValues :=
                    Some [('':ex'', Some (N (toString (msToS (now + spec_default_ttl cfg)))))],
                  TableName := Some (cfg_table cfg),
                  NoneOptions := [''ReturnValues'', ''ReturnConsumedCapacity'',
                                  ''ReturnItemCollectionMetrics'']\<rparr>)])
   \<and> (deserializeKey key cfg = Inr k \<and> marshall_data cfg data = Inr m
        \<and> ex (cfg_keys cfg) \<notin> fst ` set k \<longrightarrow>
        fst (ttl cfg (dynamo (map fst k)) later key
               (fst (snd (set_entry cfg (dynamo (map fst k)) now key data (Some 0) (tbl, log))), rlog))
          = Inr (Some (msToS (now + spec_default_ttl cfg) * 1000 - later))
        \<and> fst (ttl cfg (dynamo (map fst k)) later key
               (fst (snd (touch cfg (dynamo (map fst k)) now key (Some 0)
                            (fst (snd (set_entry cfg (dynamo (map fst k)) before key data t (tbl, log))),
                             tlog))), rlog))
          = Inr (Some (msToS (now + spec_default_ttl cfg) * 1000 - later)))"
proof -
  let ?e = "toString (msToS (now + spec_default_ttl cfg))"
  have s: "snd (snd (set_entry cfg P now key data (Some 0) (st, log)))
          = log @ [PutItemCommand
               (empty_input\<lparr>Item := Some (assign (assign m k) [(ex (cfg_keys cfg), N ?e)]),
                  TableName := Some (cfg_table cfg),
                  NoneOptions := [''ReturnValues'', ''ReturnConsumedCapacity'',
                                  ''ReturnItemCollectionMetrics'']\<rparr>)]"
    if "deserializeKey key cfg = Inr k" "marshall_data cfg data = Inr m"
    using set_entry_log [OF that, of P now "Some 0" st log] by (simp add: expiresAt_zero)
  have b: "concat (map (put_expirations cfg) (snd (snd (mset cfg P now ord args (Some 0) (st, [])))))
          = replicate (length args) (Some (N ?e))"
    if "list_all (\<lambda>kd. fst kd \<noteq> [] \<and> \<not> startsWith (fst kd) DELIMITER
                        \<and> \<not> isl (marshall_data cfg (snd kd))) args"
    using mset_expirations [OF that, of P now ord "Some 0" st] by (simp add: expiresAt_zero)
  have t: "snd (snd (touch cfg P now key (Some 0) (st, log)))
          = log @ [UpdateItemCommand
               (empty_input\<lparr>Key := Some k,
                  UpdateExpression := Some ''set #ex = :ex'',
                  ExpressionAttributeNames := Some [(''#ex'', Some (ex (cfg_keys cfg)))],
                  ExpressionAttributeValues := Some [('':ex'', Some (N ?e))],
                  TableName := Some (cfg_table cfg),
                  NoneOptions := [''ReturnValues'', ''ReturnConsumedCapacity'',
                                  ''ReturnItemCollectionMetrics'']\<rparr>)]"
    if "deserializeKey key cfg = Inr k"
    using touch_log [OF that, of P now "Some 0" st log] by (simp add: expiresAt_zero)
  have ds: "fst (ttl cfg (dynamo (map fst k)) later key
               (fst (snd (set_entry cfg (dynamo (map fst k)) now key data (Some 0) (tbl, log))), rlog))
          = Inr (Some (msToS (now + spec_default_ttl cfg) * 1000 - later))"
    if "deserializeKey key cfg = Inr k" "marshall_data cfg data = Inr m"
      "ex (cfg_keys cfg) \<notin> fst ` set k"
  proof -
    from set_entry_dynamo [OF that, of now "Some 0" tbl log] obtain it
      where "find (same_key k)
               (fst (snd (set_entry cfg (dynamo (map fst k)) now key data (Some 0) (tbl, log)))) = Some it"
        "map_of it (ex (cfg_keys cfg)) = Some (N ?e)"
      by (auto simp: expiresAt_zero)
    then show ?thesis by (rule ttl_after [OF that(1)])
  qed
  have dt: "fst (ttl cfg (dynamo (map fst k)) later key
               (fst (snd (touch cfg (dynamo (map fst k)) now key (Some 0)
                            (fst (snd (set_entry cfg (dynamo (map fst k)) before key data t (tbl, log))),
                             tlog))), rlog))
          = Inr (Some (msToS (now + spec_default_ttl cfg) * 1000 - later))"
    if "deserializeKey key cfg = Inr k" "marshall_data cfg data = Inr m"
      "ex (cfg_keys cfg) \<notin> fst ` set k"
  proof -
    let ?tbl = "fst (snd (set_entry cfg (dynamo (map fst k)) before key data t (tbl, log)))"
    from set_entry_dynamo [OF that, of before t tbl log] obtain it
      where "find (same_key k) ?tbl = Some it" by blast
    from touch_dynamo [OF that(1,3) this, of "map fst k" now "Some 0" tlog] obtain it'
      where "find (same_key k) (fst (snd (touch cfg (dynamo (map fst k)) now key (Some 0) (?tbl, tlog))))
               = Some it'"
        "map_of it' (ex (cfg_keys cfg)) = Some (N ?e)"
      by (auto simp: expiresAt_zero)
    then show ?thesis by (rule ttl_after [OF that(1)])
  qed
  from s b t ds dt show ?thesis
    by (simp add: zero_ttl_as_omitted)
qed

theorem zero_ttl_is_default_witness:
  "snd (snd (set_entry test_config throttled 1701732105000 ''123+foo'' (Num ''1000'') (Some 0) ((), [])))
     = [PutItemCommand (empty_input\<lparr>Item := Some stored_entry, TableName := Some ''TestCache'',
          NoneOptions := [''ReturnValues'', ''ReturnConsumedCapacity'', ''ReturnItemCollectionMetrics'']\<rparr>)]
   \<and> concat (map (put_expirations test_config)
        (snd (snd (mset test_config throttled 1701732105000 []
                     [(''123+foo'', Num ''1000''), (''123+bar'', Null)] (Some 0) ((), [])))))
       = [Some (N ''1701732405''), Some (N ''1701732405'')]
   \<and> fst (ttl (test_config\<lparr>cfg_ttl := None\<rparr>) table_provider 1701732105000 ''123+foo''
           (fst (snd (set_entry (test_config\<lparr>cfg_ttl := None\<rparr>) table_provider 1701732105000
                        ''123+foo'' (Num ''1000'') (Some 0) ([], []))), []))
       = Inr (Some 60000)
   \<and> snd (snd (touch test_config throttled 1701732105000 ''123+foo'' (Some 0) ((), [])))
       = [UpdateItemCommand
            (empty_input\<lparr>Key := Some [(''Id'', S (Some ''123'')), (''Name'', S (Some ''foo''))],
               UpdateExpression := Some ''set #ex = :ex'',
               ExpressionAttributeNames := Some [(''#ex'', Some ''ExpiresAt'')],
               ExpressionAttributeValues := Some [('':ex'', Some (N ''1701732405''))],
               TableName := Some ''TestCache'',
               NoneOptions := [''ReturnValues'', ''ReturnConsumedCapacity'',
                               ''ReturnItemCollectionMetrics'']\<rparr>)]
   \<and> fst (ttl (test_config\<lparr>cfg_ttl := None\<rparr>) table_provider 1701732105000 ''123+foo''
           (fst (snd (touch (test_config\<lparr>cfg_ttl := None\<rparr>) table_provider 1701732105000 ''123+foo'' (Some 0)
                        (fst (snd (set_entry (test_config\<lparr>cfg_ttl := None\<rparr>) table_provider 1701732000000
                                     ''123+foo'' (Num ''1000'') (Some 5000) ([], []))), []))), []))
       = Inr (Some 60000)"
proof -
  let ?k = "[(''Id'', S (Some ''123'')), (''Name'', S (Some ''foo''))]"
  let ?m = "[(''data'', N ''1000''), (''CreatedAt'', N ''1701732465'')]"
  let ?args = "[(''123+foo'', Num ''1000''), (''123+bar'', Null)]"
  let ?cfg = "test_config\<lparr>cfg_ttl := None\<rparr>"
  note T = zero_ttl_is_default [of test_config throttled 1701732105000 "''123+foo''" "Num ''1000''"
      "((), [])" "[]" ?args ?k ?m "()" "[]"]
  note U = zero_ttl_is_default [of ?cfg throttled 1701732105000 "''123+foo''" "Num ''1000''"
      "((), [])" "[]" "[]" ?k ?m "()" "[]" 1701732105000 "[]" "[]" 1701732000000 "Some 5000" "[]"]
  have k: "deserializeKey ''123+foo'' test_config = Inr ?k" by (simp add: eval_defs)
  have m: "marshall_data test_config (Num ''1000'') = Inr ?m" by (simp add: eval_defs)
  have a: "list_all (\<lambda>kd. fst kd \<noteq> [] \<and> \<not> startsWith (fst kd) DELIMITER
                        \<and> \<not> isl (marshall_data test_config (snd kd))) ?args"
    by (simp add: eval_defs)
  have d: "spec_default_ttl test_config = 300000" by (simp add: spec_default_ttl_def test_config_def)
  have e: "toString (msToS 1701732405000) = ''1701732405''" by (simp add: number_defs)
  have x: "ex (cfg_keys test_config) = ''ExpiresAt''" "cfg_table test_config = ''TestCache''"
    by (simp_all add: test_config_def)
  have one: "snd (snd (set_entry test_config throttled 1701732105000 ''123+foo'' (Num ''1000'') (Some 0) ((), [])))
     = [PutItemCommand (empty_input\<lparr>Item := Some stored_entry, TableName := Some ''TestCache'',
          NoneOptions := [''ReturnValues'', ''ReturnConsumedCapacity'', ''ReturnItemCollectionMetrics'']\<rparr>)]"
    using T [THEN conjunct2, THEN conjunct2, THEN conjunct2, THEN conjunct1] k m
    by (simp add: d e x stored_entry_def assign_def)
  have two: "concat (map (put_expirations test_config)
        (snd (snd (mset test_config throttled 1701732105000 [] ?args (Some 0) ((), [])))))
       = [Some (N ''1701732405''), Some (N ''1701732405'')]"
    using T [THEN conjunct2, THEN conjunct2, THEN conjunct2, THEN conjunct2, THEN conjunct1] a
    by (simp add: d e)
  have k': "deserializeKey ''123+foo'' ?cfg = Inr ?k" by (simp add: eval_defs)
  have m': "marshall_data ?cfg (Num ''1000'') = Inr ?m" by (simp add: eval_defs)
  have x': "ex (cfg_keys ?cfg) \<notin> fst ` set ?k" by (simp add: test_config_def)
  have d': "spec_default_ttl ?cfg = 60000" by (simp add: spec_default_ttl_def)
  have three: "fst (ttl ?cfg table_provider 1701732105000 ''123+foo''
           (fst (snd (set_entry ?cfg table_provider 1701732105000
                        ''123+foo'' (Num ''1000'') (Some 0) ([], []))), []))
       = Inr (Some 60000)"
    using U [THEN conjunct2, THEN conjunct2, THEN conjunct2, THEN conjunct2, THEN conjunct2,
        THEN conjunct2, THEN mp, THEN conjunct1, OF conjI [OF k' conjI [OF m' x']]]
    by (simp add: d' msToS_def table_provider_def)
  have four: "snd (snd (touch test_config throttled 1701732105000 ''123+foo'' (Some 0) ((), [])))
       = [UpdateItemCommand
            (empty_input\<lparr>Key := Some ?k,
               UpdateExpression := Some ''set #ex = :ex'',
               ExpressionAttributeNames := Some [(''#ex'', Some ''ExpiresAt'')],
               ExpressionAttributeValues := Some [('':ex'', Some (N ''1701732405''))],
               TableName := Some ''TestCache'',
               NoneOptions := [''ReturnValues'', ''ReturnConsumedCapacity'',
                               ''ReturnItemCollectionMetrics'']\<rparr>)]"
    using T [THEN conjunct2, THEN conjunct2, THEN conjunct2, THEN conjunct2, THEN conjunct2,
        THEN conjunct1] k
    by (simp add: d e x)
  have five: "fst (ttl ?cfg table_provider 1701732105000 ''123+foo''
           (fst (snd (touch ?cfg table_provider 1701732105000 ''123+foo'' (Some 0)
                        (fst (snd (set_entry ?cfg table_provider 1701732000000
                                     ''123+foo'' (Num ''1000'') (Some 5000) ([], []))), []))), []))
       = Inr (Some 60000)"
    using U [THEN conjunct2, THEN conjunct2, THEN conjunct2, THEN conjunct2, THEN conjunct2,
        THEN conjunct2, THEN mp, THEN conjunct2, OF conjI [OF k' conjI [OF m' x']]]
    by (simp add: d' msToS_def table_provider_def)
  from one two three four five show ?thesis by simp
qed

end
